theory Spec2Isabelle
  imports Main "HOL-Library.Word"
begin

unbundle bit_operations_syntax

section \<open>Characters, cursors and buffers\<close>

text \<open>
  The parser of \<^verbatim>\<open>gsm_parser.c\<close> walks \<^verbatim>\<open>const char*\<close> cursors over the received
  line. A cursor is modelled by the bytes at and after the pointer; every byte beyond
  the end of the list reads as NUL, as in a zero-filled receive buffer, so \<open>p++\<close> is
  \<open>tl\<close> and \<open>p += n\<close> is \<open>drop n\<close>. A \<^verbatim>\<open>char\<close> array that the parser writes
  (a destination buffer, a name field) is a store from index to byte: a write at any
  index is representable, which is what lets a statement bound the indices written.
\<close>

type_synonym cursor = string
type_synonym buf = "nat \<Rightarrow> char"
type_synonym uint8_t = "8 word"
type_synonym int32_t = "32 word"
type_synonym uint32_t = "32 word"

abbreviation NUL :: char where "NUL \<equiv> CHR 0x00"
abbreviation DQ :: char where "DQ \<equiv> CHR 0x22"
abbreviation CR :: char where "CR \<equiv> CHR 0x0D"
abbreviation LF :: char where "LF \<equiv> CHR 0x0A"

text \<open>\<open>*p\<close>\<close>

fun peek :: "cursor \<Rightarrow> char" where
  "peek [] = NUL"
| "peek (c # p) = c"

text \<open>\<open>if (*p == c) { p++; }\<close>\<close>

definition skip_ch :: "char \<Rightarrow> cursor \<Rightarrow> cursor" where
  "skip_ch c p = (if peek p = c then tl p else p)"

text \<open>\<open>if (*str == '+') { str += 7; }\<close>, the fixed-width skip of a response keyword.\<close>

definition skip_keyword :: "cursor \<Rightarrow> cursor" where
  "skip_keyword str = (if peek str = CHR ''+'' then drop 7 str else str)"

text \<open>\<open>strlen\<close>, and \<open>strncmp(a, b, n) == 0\<close>: at most \<open>n\<close> bytes are compared and the
  comparison ends at a NUL the two strings share.\<close>

definition strlen :: "cursor \<Rightarrow> nat" where
  "strlen s = length (takeWhile (\<lambda>c. c \<noteq> NUL) s)"

fun strncmp0 :: "cursor \<Rightarrow> cursor \<Rightarrow> nat \<Rightarrow> bool" where
  "strncmp0 a b 0 = True"
| "strncmp0 a b (Suc n) =
    (if peek a \<noteq> peek b then False
     else if peek a = NUL then True
     else strncmp0 (tl a) (tl b) n)"

text \<open>The C string held by the first \<open>n\<close> bytes of a buffer (what \<open>strcmp\<close> reads of an
  array of \<open>n\<close> bytes).\<close>

definition buf_cstr :: "nat \<Rightarrow> buf \<Rightarrow> string" where
  "buf_cstr n b = takeWhile (\<lambda>c. c \<noteq> NUL) (map b [0..<n])"

text \<open>
  Modelled from the spec: the macros \<^verbatim>\<open>GSM_CHARISNUM\<close> and \<^verbatim>\<open>GSM_CHARTONUM\<close> of
  \<^verbatim>\<open>gsm_private.h\<close>, which is not among the sources. The spec has the number scanner
  accumulate decimal digits: the test is \<open>'0' <= x && x <= '9'\<close> and the value \<open>x - '0'\<close>.
\<close>

definition GSM_CHARISNUM :: "char \<Rightarrow> bool" where
  "GSM_CHARISNUM x =
    (of_char (CHR ''0'') \<le> (of_char x :: nat) \<and> (of_char x :: nat) \<le> of_char (CHR ''9''))"

definition GSM_CHARTONUM :: "char \<Rightarrow> int32_t" where
  "GSM_CHARTONUM x = of_char x - of_char (CHR ''0'')"

section \<open>Constants of the missing headers\<close>

text \<open>
  \<^verbatim>\<open>gsm_private.h\<close> and the type definitions are not among the sources. The enumerators
  that the parser compares with parsed integers, the sizes of the \<^verbatim>\<open>char\<close> arrays it
  passes as \<open>sizeof\<close>, the sentinel \<^verbatim>\<open>GSM_MEM_UNKNOWN\<close> and the device's memory table
  \<^verbatim>\<open>gsm_dev_mem_map\<close> are parameters of the model. A \<^verbatim>\<open>gsm_mem_t\<close> is the natural number
  of its enumerator. The macros \<^verbatim>\<open>GSM_U16\<close>, \<^verbatim>\<open>GSM_U32\<close> and \<^verbatim>\<open>GSM_SZ\<close> of the same
  header are read as the casts their names say.
\<close>

record gsm_hdr =
  GSM_NETWORK_REG_STATUS_CONNECTED :: int32_t
  GSM_NETWORK_REG_STATUS_CONNECTED_ROAMING :: int32_t
  GSM_OPERATOR_FORMAT_LONG_NAME :: int32_t
  GSM_OPERATOR_FORMAT_SHORT_NAME :: int32_t
  GSM_OPERATOR_FORMAT_NUMBER :: int32_t
  GSM_OPERATOR_FORMAT_INVALID :: int32_t
  GSM_MEM_UNKNOWN :: nat
  gsm_dev_mem_map :: "(string \<times> nat) list"
  sizeof_curr_long_name :: nat
  sizeof_curr_short_name :: nat
  sizeof_op_long_name :: nat
  sizeof_op_short_name :: nat
  sizeof_pb_name :: nat
  sizeof_pb_number :: nat
  sizeof_sms_number :: nat
  sizeof_sms_name :: nat

section \<open>Token scanners\<close>

subsection \<open>\<open>gsmi_parse_number\<close>\<close>

text \<open>The \<open>while (GSM_CHARISNUM( *p))\<close> loop; \<open>val\<close> is an \<^verbatim>\<open>int32_t\<close>, whose arithmetic
  wraps around at 32 bits.\<close>

fun number_loop :: "cursor \<Rightarrow> int32_t \<Rightarrow> cursor \<times> int32_t" where
  "number_loop [] val = ([], val)"
| "number_loop (c # p) val =
    (if GSM_CHARISNUM c then number_loop p (val * 10 + GSM_CHARTONUM c) else (c # p, val))"

text \<open>The result is the returned \<^verbatim>\<open>int32_t\<close> (read it with \<open>sint\<close>) and the new \<open>*str\<close>.\<close>

definition gsmi_parse_number :: "cursor \<Rightarrow> int32_t \<times> cursor" where
  "gsmi_parse_number str =
    (let p = skip_ch DQ str;
         p = skip_ch (CHR '','') p;
         p = skip_ch DQ p;
         p = skip_ch (CHR ''/'') p;
         p = skip_ch (CHR '':'') p;
         p = skip_ch (CHR ''+'') p;
         minus = (peek p = CHR ''-'');
         p = (if minus then tl p else p);
         (p, val) = number_loop p 0;
         p = skip_ch (CHR '','') p
     in (if minus then - val else val, p))"

subsection \<open>\<open>gsmi_parse_string\<close>\<close>

text \<open>
  The \<open>while ( *p)\<close> loop. \<open>dst\<close> is \<open>None\<close> for a NULL destination and otherwise the
  memory at the destination's start; the C code advances \<open>dst\<close> together with \<open>i\<close>, so
  \<open>*dst++ = *p\<close> stores at index \<open>i\<close>. The result is the cursor, the destination and \<open>i\<close>.
\<close>

fun string_loop :: "cursor \<Rightarrow> buf option \<Rightarrow> nat \<Rightarrow> nat \<Rightarrow> uint8_t \<Rightarrow> cursor \<times> buf option \<times> nat" where
  "string_loop [] dst i dst_len trim = ([], dst, i)"
| "string_loop (c # p) dst i dst_len trim =
    (if c = NUL then (c # p, dst, i)
     else if c = DQ \<and> (peek p = CHR '','' \<or> peek p = CR \<or> peek p = LF) then (p, dst, i)
     else (case dst of
         None \<Rightarrow> string_loop p dst i dst_len trim
       | Some b \<Rightarrow>
           if i < dst_len then string_loop p (Some (b(i := c))) (Suc i) dst_len trim
           else if trim = 0 then (c # p, dst, i)
           else string_loop p dst i dst_len trim))"

text \<open>The result is the return value, the new \<open>*src\<close> and the destination memory.\<close>

definition gsmi_parse_string :: "cursor \<Rightarrow> buf option \<Rightarrow> nat \<Rightarrow> uint8_t \<Rightarrow> uint8_t \<times> cursor \<times> buf option" where
  "gsmi_parse_string src dst dst_len trim =
    (let p = skip_ch (CHR '','') src;
         p = skip_ch DQ p;
         dst_len = (if dst_len \<noteq> 0 then dst_len - 1 else dst_len);
         (p, dst, i) = string_loop p dst 0 dst_len trim;
         dst = (case dst of None \<Rightarrow> None | Some b \<Rightarrow> Some (b(i := NUL)))
     in (1, p, dst))"

text \<open>A call with a non-NULL destination \<open>b\<close>: the cursor and the destination afterwards.\<close>

definition parse_string_into :: "cursor \<Rightarrow> buf \<Rightarrow> nat \<Rightarrow> uint8_t \<Rightarrow> cursor \<times> buf" where
  "parse_string_into src b dst_len trim =
    (case gsmi_parse_string src (Some b) dst_len trim of
       (r, p, d) \<Rightarrow> (p, (case d of None \<Rightarrow> b | Some b' \<Rightarrow> b')))"

subsection \<open>\<open>gsmi_check_and_trim\<close>\<close>

definition gsmi_check_and_trim :: "cursor \<Rightarrow> cursor" where
  "gsmi_check_and_trim src =
    (if peek src \<noteq> DQ \<and> peek src \<noteq> CR \<and> peek src \<noteq> CHR '','' then
       (case gsmi_parse_string src None 0 1 of (r, p, d) \<Rightarrow> p)
     else src)"

subsection \<open>\<open>gsmi_parse_memory\<close> and \<open>gsmi_parse_memories_string\<close>\<close>

text \<open>The \<open>for\<close> loop over \<^verbatim>\<open>gsm_dev_mem_map\<close>: the first entry whose literal is a prefix
  of the input wins and the loop breaks.\<close>

fun memory_scan :: "(string \<times> nat) list \<Rightarrow> cursor \<Rightarrow> nat \<Rightarrow> nat \<times> cursor" where
  "memory_scan [] s mem = (mem, s)"
| "memory_scan ((mem_str, m) # tbl) s mem =
    (let sl = strlen mem_str in
     if strncmp0 s mem_str sl then (m, drop sl s) else memory_scan tbl s mem)"

definition gsmi_parse_memory :: "gsm_hdr \<Rightarrow> cursor \<Rightarrow> nat \<times> cursor" where
  "gsmi_parse_memory h src =
    (let s = skip_ch (CHR '','') src;
         s = skip_ch DQ s;
         (mem, s) = memory_scan (gsm_dev_mem_map h) s (GSM_MEM_UNKNOWN h);
         s = (if mem = GSM_MEM_UNKNOWN h
              then (case gsmi_parse_string s None 0 1 of (r, p, d) \<Rightarrow> p) else s);
         s = skip_ch DQ s
     in (mem, s))"

text \<open>
  The \<open>do { ... } while ( *str && *str != ')')\<close> loop. Nothing in the C code bounds the
  number of iterations, so the loop is a partial function: \<open>None\<close> is a loop that never
  ends. \<open>1 << mem\<close> is \<open>push_bit mem 1\<close> on 32 bits.
\<close>

partial_function (option) memories_loop :: "gsm_hdr \<Rightarrow> cursor \<Rightarrow> uint32_t \<Rightarrow> (cursor \<times> uint32_t) option" where
  "memories_loop h str mem_dst =
    (let r = gsmi_parse_memory h str;
         mem_dst' = mem_dst OR push_bit (fst r) 1
     in if peek (snd r) \<noteq> NUL \<and> peek (snd r) \<noteq> CHR '')''
        then memories_loop h (snd r) mem_dst'
        else Some (snd r, mem_dst'))"

text \<open>The result is the return value, the new \<open>*src\<close> and \<open>*mem_dst\<close>.\<close>

definition gsmi_parse_memories_string :: "gsm_hdr \<Rightarrow> cursor \<Rightarrow> (uint8_t \<times> cursor \<times> uint32_t) option" where
  "gsmi_parse_memories_string h src =
    (let str = skip_ch (CHR '','') src;
         str = skip_ch (CHR ''('') str
     in case memories_loop h str 0 of
          None \<Rightarrow> None
        | Some (str, mem_dst) \<Rightarrow> Some (1, skip_ch (CHR '')'') str, mem_dst))"

section \<open>Device state and the active command\<close>

text \<open>
  The global \<^verbatim>\<open>gsm\<close> and the message \<^verbatim>\<open>gsm.msg\<close> points to, as far as the parser
  reads and writes them. Their C declarations are not among the sources: fields carry
  the names the parser uses. Integers that the parser stores from \<open>gsmi_parse_number\<close>
  are kept at 32 bits (the narrowing to a field's declared width is not modelled);
  the counters \<open>ei\<close>, \<open>etr\<close>, \<open>opsi\<close>, \<open>opsl\<close> are \<^verbatim>\<open>size_t\<close> values, natural numbers
  here, since the only arithmetic on them is an increment below a bound. An array of
  records is a store from index to record. A pointer that the code tests against NULL
  is an option: \<open>None\<close> is NULL, \<open>Some v\<close> a pointer to a cell that holds \<open>v\<close>. The members
  of a C union are separate fields: no statement below reads a member other than the
  one written.
\<close>

datatype gsm_cmd_t = GSM_CMD_CPBR | GSM_CMD_CPBF | GSM_CMD_CMGL | GSM_CMD_COPS_GET | GSM_CMD_OTHER nat

datatype gsm_sim_state_t =
  GSM_SIM_STATE_READY | GSM_SIM_STATE_NOT_READY | GSM_SIM_STATE_NOT_INSERTED
  | GSM_SIM_STATE_PIN | GSM_SIM_STATE_PUK

datatype gsm_sms_status_t =
  GSM_SMS_STATUS_ALL | GSM_SMS_STATUS_UNREAD | GSM_SMS_STATUS_READ
  | GSM_SMS_STATUS_UNSENT | GSM_SMS_STATUS_SENT

datatype gsmr_t = gsmOK | gsmERR

datatype gsm_cb_type_t = GSM_CB_CPIN

text \<open>The calls that leave the parser: each is recorded, in order, in the state.\<close>

datatype ext_call = Call_gsm_operator_get | Call_gsmi_get_sim_info | Call_gsmi_send_cb gsm_cb_type_t

record gsm_operator_curr_t =
  oc_mode :: int32_t
  oc_format :: int32_t
  oc_long_name :: buf
  oc_short_name :: buf
  oc_num :: uint32_t

record gsm_operator_t =
  op_stat :: uint32_t
  op_long_name :: buf
  op_short_name :: buf
  op_num :: uint32_t

record gsm_datetime_t =
  dt_date :: int32_t
  dt_month :: int32_t
  dt_year :: int32_t
  dt_hours :: int32_t
  dt_minutes :: int32_t
  dt_seconds :: int32_t

record gsm_pb_entry_t =
  pb_pos :: uint32_t
  pb_name :: buf
  pb_type :: int32_t
  pb_number :: buf

record gsm_sms_entry_t =
  sms_mem :: nat
  sms_pos :: uint32_t
  sms_status :: gsm_sms_status_t
  sms_number :: buf
  sms_name :: buf
  sms_datetime :: gsm_datetime_t

text \<open>\<open>msg.pb_list\<close> and \<open>msg.pb_search\<close>: \<open>entries\<close>, \<open>etr\<close>, \<open>ei\<close>, \<open>er\<close>.\<close>

record pb_slot =
  pb_entries :: "nat \<Rightarrow> gsm_pb_entry_t"
  pb_etr :: nat
  pb_ei :: nat
  pb_er :: "nat option"

text \<open>\<open>msg.sms_list\<close>: \<open>mem\<close>, \<open>entries\<close>, \<open>etr\<close>, \<open>ei\<close>.\<close>

record sms_slot =
  sl_mem :: nat
  sl_entries :: "nat \<Rightarrow> gsm_sms_entry_t"
  sl_etr :: nat
  sl_ei :: nat

text \<open>\<open>msg.cops_scan\<close>: \<open>ops\<close>, \<open>opsl\<close>, \<open>opsi\<close>, \<open>opf\<close>.\<close>

record cops_scan_slot =
  ops :: "nat \<Rightarrow> gsm_operator_t"
  opsl :: nat
  opsi :: nat
  opf :: "nat option"

record gsm_msg_t =
  cmd_def :: gsm_cmd_t
  msg_pb_list :: pb_slot
  msg_pb_search :: pb_slot
  msg_sms_list :: sms_slot
  msg_cops_scan :: cops_scan_slot
  msg_cops_get_curr :: "gsm_operator_curr_t option"

record gsm_mem_info =
  mem_available :: uint32_t
  mem_current :: nat
  mem_used :: int32_t
  mem_total :: int32_t

record gsm_t =
  msg :: "gsm_msg_t option"
  network_status :: int32_t
  curr_operator :: gsm_operator_curr_t
  sim_state :: gsm_sim_state_t
  sms_mem_info :: "nat \<Rightarrow> gsm_mem_info"
  cb_cpin_state :: gsm_sim_state_t
  ext_calls :: "ext_call list"

section \<open>Statement parsers\<close>

subsection \<open>\<open>gsmi_parse_creg\<close>\<close>

text \<open>
  \<open>gsm_operator_get\<close> belongs to the command scheduler, outside the sources: the model
  records the call and takes its result \<open>op_get\<close> as an argument. \<open>cb\<close> is the local
  flag of the C function; nothing reads it (the body of \<open>if (cb)\<close> is empty).
\<close>

definition gsmi_parse_creg :: "gsm_hdr \<Rightarrow> gsmr_t \<Rightarrow> gsm_t \<Rightarrow> cursor \<Rightarrow> uint8_t \<Rightarrow> uint8_t \<times> gsm_t" where
  "gsmi_parse_creg h op_get g str skip_first =
    (let str = skip_keyword str;
         str = (if skip_first \<noteq> 0 then snd (gsmi_parse_number str) else str);
         (st, str) = gsmi_parse_number str;
         g = g\<lparr>network_status := st\<rparr>;
         (cb, g) =
           (if network_status g = GSM_NETWORK_REG_STATUS_CONNECTED h
               \<or> network_status g = GSM_NETWORK_REG_STATUS_CONNECTED_ROAMING h
            then (op_get \<noteq> gsmOK, g\<lparr>ext_calls := ext_calls g @ [Call_gsm_operator_get]\<rparr>)
            else (True, g))
     in (1, g))"

subsection \<open>\<open>gsmi_parse_cpin\<close>\<close>

definition gsmi_parse_cpin :: "gsm_t \<Rightarrow> cursor \<Rightarrow> uint8_t \<Rightarrow> uint8_t \<times> gsm_t" where
  "gsmi_parse_cpin g str send_evt =
    (let str = skip_keyword str;
         g = g\<lparr>sim_state :=
               (if strncmp0 str ''READY'' 5 then GSM_SIM_STATE_READY
                else if strncmp0 str ''NOT READY'' 9 then GSM_SIM_STATE_NOT_READY
                else if strncmp0 str ''NOT INSERTED'' 14 then GSM_SIM_STATE_NOT_INSERTED
                else if strncmp0 str ''SIM PIN'' 7 then GSM_SIM_STATE_PIN
                else if strncmp0 str ''PIN PUK'' 7 then GSM_SIM_STATE_PUK
                else GSM_SIM_STATE_NOT_READY)\<rparr>;
         g = (if sim_state g = GSM_SIM_STATE_READY
              then g\<lparr>ext_calls := ext_calls g @ [Call_gsmi_get_sim_info]\<rparr> else g);
         g = (if send_evt \<noteq> 0
              then g\<lparr>cb_cpin_state := sim_state g,
                     ext_calls := ext_calls g @ [Call_gsmi_send_cb GSM_CB_CPIN]\<rparr>
              else g)
     in (1, g))"

subsection \<open>\<open>gsmi_parse_cops\<close>\<close>

text \<open>The \<open>switch\<close> on the format: its case labels are enumerators of the missing header,
  tried here in the order of the source (C requires them to be distinct). In the numeric
  case the source writes \<open>gsmi_parse_number(&str, 1)\<close>; the function has one parameter,
  and the model calls it on the cursor.\<close>

definition cops_payload :: "gsm_hdr \<Rightarrow> cursor \<Rightarrow> gsm_operator_curr_t \<Rightarrow> gsm_operator_curr_t" where
  "cops_payload h str co =
    (if oc_format co = GSM_OPERATOR_FORMAT_LONG_NAME h then
       co\<lparr>oc_long_name := snd (parse_string_into str (oc_long_name co) (sizeof_curr_long_name h) 1)\<rparr>
     else if oc_format co = GSM_OPERATOR_FORMAT_SHORT_NAME h then
       co\<lparr>oc_short_name := snd (parse_string_into str (oc_short_name co) (sizeof_curr_short_name h) 1)\<rparr>
     else if oc_format co = GSM_OPERATOR_FORMAT_NUMBER h then
       co\<lparr>oc_num := fst (gsmi_parse_number str)\<rparr>
     else co)"

definition gsmi_parse_cops :: "gsm_hdr \<Rightarrow> gsm_t \<Rightarrow> cursor \<Rightarrow> uint8_t \<times> gsm_t" where
  "gsmi_parse_cops h g str =
    (let str = skip_keyword str;
         (mode, str) = gsmi_parse_number str;
         co = (curr_operator g)\<lparr>oc_mode := mode\<rparr>;
         co = (if peek str \<noteq> CR then
                 (let (fmt, str) = gsmi_parse_number str;
                      co = co\<lparr>oc_format := fmt\<rparr>
                  in if peek str \<noteq> CR then cops_payload h str co else co)
               else co\<lparr>oc_format := GSM_OPERATOR_FORMAT_INVALID h\<rparr>);
         g = g\<lparr>curr_operator := co\<rparr>;
         g = (case msg g of
                None \<Rightarrow> g
              | Some m \<Rightarrow>
                  if cmd_def m = GSM_CMD_COPS_GET \<and> msg_cops_get_curr m \<noteq> None
                  then g\<lparr>msg := Some (m\<lparr>msg_cops_get_curr := Some co\<rparr>)\<rparr> else g)
     in (1, g))"

subsection \<open>\<open>gsmi_parse_cops_scan\<close>\<close>

text \<open>
  The function-local \<open>static union u\<close>: \<open>bo\<close> and \<open>ccd\<close> are one-bit fields, \<open>tn\<close> is a
  two-bit field (its increment wraps from 3 to 0), \<open>tp\<close> and \<open>ch_prev\<close> are bytes. The
  state is passed in and returned.
\<close>

record cops_scan_u =
  u_bo :: bool
  u_ccd :: bool
  u_tn :: "2 word"
  u_tp :: uint8_t
  u_ch_prev :: char

definition cops_scan_u_reset :: cops_scan_u where
  "cops_scan_u_reset = \<lparr>u_bo = False, u_ccd = False, u_tn = 0, u_tp = 0, u_ch_prev = NUL\<rparr>"

text \<open>
  \<open>if (u.f.tp < sizeof(name) - 1) { name[u.f.tp++] = ch; name[u.f.tp] = 0; }\<close> on a
  name array of \<open>sz\<close> bytes (a C array has at least one byte, so \<open>sz - 1\<close> does not wrap).
\<close>

definition scan_put :: "nat \<Rightarrow> buf \<Rightarrow> uint8_t \<Rightarrow> char \<Rightarrow> buf \<times> uint8_t" where
  "scan_put sz name tp ch =
    (if unat tp < sz - 1 then ((name(unat tp := ch))(unat (tp + 1) := NUL), tp + 1)
     else (name, tp))"

text \<open>The \<open>switch (u.f.tn)\<close> on a character of a record: \<open>ch - '0'\<close> is added in the
  arithmetic of the field it goes to, modulo \<open>2^32\<close>.\<close>

definition scan_term :: "gsm_hdr \<Rightarrow> cops_scan_u \<Rightarrow> gsm_operator_t \<Rightarrow> char \<Rightarrow> cops_scan_u \<times> gsm_operator_t" where
  "scan_term h u e ch =
    (if u_tn u = 0 then (u, e\<lparr>op_stat := 10 * op_stat e + (of_char ch - of_char (CHR ''0''))\<rparr>)
     else if u_tn u = 1 then
       (case scan_put (sizeof_op_long_name h) (op_long_name e) (u_tp u) ch of
          (b, tp) \<Rightarrow> (u\<lparr>u_tp := tp\<rparr>, e\<lparr>op_long_name := b\<rparr>))
     else if u_tn u = 2 then
       (case scan_put (sizeof_op_short_name h) (op_short_name e) (u_tp u) ch of
          (b, tp) \<Rightarrow> (u\<lparr>u_tp := tp\<rparr>, e\<lparr>op_short_name := b\<rparr>))
     else (u, e\<lparr>op_num := 10 * op_num e + (of_char ch - of_char (CHR ''0''))\<rparr>))"

text \<open>The part after the early returns: bracket open or not.\<close>

definition scan_step :: "gsm_hdr \<Rightarrow> cops_scan_u \<Rightarrow> cops_scan_slot \<Rightarrow> char \<Rightarrow> cops_scan_u \<times> cops_scan_slot" where
  "scan_step h u cs ch =
    (if u_bo u then
       (if ch = CHR '')'' then
          (let cs = cs\<lparr>opsi := opsi cs + 1\<rparr>
           in (u\<lparr>u_bo := False, u_tn := 0, u_tp := 0\<rparr>,
               (case opf cs of None \<Rightarrow> cs | Some v \<Rightarrow> cs\<lparr>opf := Some (opsi cs)\<rparr>)))
        else if ch = CHR '','' then (u\<lparr>u_tn := u_tn u + 1, u_tp := 0\<rparr>, cs)
        else if ch \<noteq> DQ then
          (case scan_term h u (ops cs (opsi cs)) ch of
             (u, e) \<Rightarrow> (u, cs\<lparr>ops := (ops cs)(opsi cs := e)\<rparr>))
        else (u, cs))
     else
       (if ch = CHR ''('' then (u\<lparr>u_bo := True\<rparr>, cs)
        else if ch = CHR '','' \<and> u_ch_prev u = CHR '','' then (u\<lparr>u_ccd := True\<rparr>, cs)
        else (u, cs)))"

text \<open>
  The result is \<open>None\<close> when the code dereferences \<open>gsm.msg\<close> while it is NULL (the
  function's note requires an active command), and otherwise the return value, the
  static state and the device state.
\<close>

definition gsmi_parse_cops_scan :: "gsm_hdr \<Rightarrow> cops_scan_u \<Rightarrow> gsm_t \<Rightarrow> char \<Rightarrow> uint8_t \<Rightarrow> (uint8_t \<times> cops_scan_u \<times> gsm_t) option" where
  "gsmi_parse_cops_scan h u g ch reset =
    (if reset \<noteq> 0 then Some (1, cops_scan_u_reset, g)
     else if u_ch_prev u = NUL \<and> ch = CHR '' '' then Some (1, u, g)
     else
       (let u = (if u_ch_prev u = NUL \<and> ch = CHR '','' then u\<lparr>u_ccd := True\<rparr> else u)
        in if u_ccd u then Some (1, u, g)
           else (case msg g of
               None \<Rightarrow> None
             | Some m \<Rightarrow>
                 if opsl (msg_cops_scan m) \<le> opsi (msg_cops_scan m) then Some (1, u, g)
                 else (case scan_step h u (msg_cops_scan m) ch of
                     (u, cs) \<Rightarrow>
                       Some (1, u\<lparr>u_ch_prev := ch\<rparr>, g\<lparr>msg := Some (m\<lparr>msg_cops_scan := cs\<rparr>)\<rparr>)))))"

text \<open>A run of calls with \<open>reset = 0\<close>, one per character.\<close>

fun cops_scan_feed :: "gsm_hdr \<Rightarrow> cops_scan_u \<Rightarrow> gsm_t \<Rightarrow> char list \<Rightarrow> (cops_scan_u \<times> gsm_t) option" where
  "cops_scan_feed h u g [] = Some (u, g)"
| "cops_scan_feed h u g (ch # chs) =
    (case gsmi_parse_cops_scan h u g ch 0 of
       None \<Rightarrow> None
     | Some (r, u', g') \<Rightarrow> cops_scan_feed h u' g' chs)"

subsection \<open>\<open>gsmi_parse_datetime\<close> and \<open>gsmi_parse_sms_status\<close>\<close>

definition gsmi_parse_datetime :: "cursor \<Rightarrow> gsm_datetime_t \<Rightarrow> uint8_t \<times> cursor \<times> gsm_datetime_t" where
  "gsmi_parse_datetime src dt =
    (let (v, src) = gsmi_parse_number src; dt = dt\<lparr>dt_date := v\<rparr>;
         (v, src) = gsmi_parse_number src; dt = dt\<lparr>dt_month := v\<rparr>;
         (v, src) = gsmi_parse_number src; dt = dt\<lparr>dt_year := 2000 + v\<rparr>;
         (v, src) = gsmi_parse_number src; dt = dt\<lparr>dt_hours := v\<rparr>;
         (v, src) = gsmi_parse_number src; dt = dt\<lparr>dt_minutes := v\<rparr>;
         (v, src) = gsmi_parse_number src; dt = dt\<lparr>dt_seconds := v\<rparr>
     in (1, gsmi_check_and_trim src, dt))"

text \<open>The local \<open>char t[11]\<close> starts here as zeros: \<open>gsmi_parse_string\<close> ends what it
  stores with a NUL inside the array, and \<open>strcmp\<close> reads no further.\<close>

definition gsmi_parse_sms_status :: "cursor \<Rightarrow> gsm_sms_status_t \<Rightarrow> uint8_t \<times> cursor \<times> gsm_sms_status_t" where
  "gsmi_parse_sms_status src stat =
    (let (src, tb) = parse_string_into src (\<lambda>i. NUL) 11 1;
         t = buf_cstr 11 tb;
         s = (if t = ''REC UNREAD'' then GSM_SMS_STATUS_UNREAD
              else if t = ''REC READ'' then GSM_SMS_STATUS_READ
              else if t = ''STO UNSENT'' then GSM_SMS_STATUS_UNSENT
              else if t = ''REC SENT'' then GSM_SMS_STATUS_SENT
              else GSM_SMS_STATUS_ALL)
     in if s \<noteq> GSM_SMS_STATUS_ALL then (1, src, s) else (0, src, stat))"

subsection \<open>\<open>gsmi_parse_cmgl\<close>\<close>

text \<open>The statements that fill the entry \<open>e\<close>.\<close>

definition cmgl_entry :: "gsm_hdr \<Rightarrow> nat \<Rightarrow> cursor \<Rightarrow> gsm_sms_entry_t \<Rightarrow> gsm_sms_entry_t" where
  "cmgl_entry h mem str e =
    (let e = e\<lparr>sms_mem := mem\<rparr>;
         (v, str) = gsmi_parse_number str; e = e\<lparr>sms_pos := v\<rparr>;
         (r, str, st) = gsmi_parse_sms_status str (sms_status e); e = e\<lparr>sms_status := st\<rparr>;
         (str, b) = parse_string_into str (sms_number e) (sizeof_sms_number h) 1;
         e = e\<lparr>sms_number := b\<rparr>;
         (str, b) = parse_string_into str (sms_name e) (sizeof_sms_name h) 1;
         e = e\<lparr>sms_name := b\<rparr>;
         (r, str, dt) = gsmi_parse_datetime str (sms_datetime e)
     in e\<lparr>sms_datetime := dt\<rparr>)"

definition gsmi_parse_cmgl :: "gsm_hdr \<Rightarrow> gsm_t \<Rightarrow> cursor \<Rightarrow> uint8_t \<times> gsm_t" where
  "gsmi_parse_cmgl h g str =
    (case msg g of
       None \<Rightarrow> (0, g)
     | Some m \<Rightarrow>
         if cmd_def m \<noteq> GSM_CMD_CMGL \<or> sl_etr (msg_sms_list m) \<le> sl_ei (msg_sms_list m)
         then (0, g)
         else
           (let str = skip_keyword str;
                sl = msg_sms_list m;
                e = cmgl_entry h (sl_mem sl) str (sl_entries sl (sl_ei sl));
                sl = sl\<lparr>sl_entries := (sl_entries sl)(sl_ei sl := e)\<rparr>
            in (1, g\<lparr>msg := Some (m\<lparr>msg_sms_list := sl\<rparr>)\<rparr>)))"

subsection \<open>\<open>gsmi_parse_cpms\<close>\<close>

text \<open>The three \<open>for (i = 0; i < 3; i++)\<close> loops, over the indices still to do. The loop
  of option 0 returns 0 as soon as \<open>gsmi_parse_memories_string\<close> does, and does not end
  when that call does not.\<close>

fun cpms_opt_loop :: "gsm_hdr \<Rightarrow> nat list \<Rightarrow> cursor \<Rightarrow> gsm_t \<Rightarrow> (bool \<times> cursor \<times> gsm_t) option" where
  "cpms_opt_loop h [] str g = Some (True, str, g)"
| "cpms_opt_loop h (i # todo) str g =
    (case gsmi_parse_memories_string h str of
       None \<Rightarrow> None
     | Some (r, str, m) \<Rightarrow>
         (let g = g\<lparr>sms_mem_info := (sms_mem_info g)(i := (sms_mem_info g i)\<lparr>mem_available := m\<rparr>)\<rparr>
          in if r = 0 then Some (False, str, g) else cpms_opt_loop h todo str g))"

fun cpms_get_loop :: "gsm_hdr \<Rightarrow> nat list \<Rightarrow> cursor \<Rightarrow> gsm_t \<Rightarrow> cursor \<times> gsm_t" where
  "cpms_get_loop h [] str g = (str, g)"
| "cpms_get_loop h (i # todo) str g =
    (let (mem, str) = gsmi_parse_memory h str;
         (used, str) = gsmi_parse_number str;
         (total, str) = gsmi_parse_number str;
         g = g\<lparr>sms_mem_info := (sms_mem_info g)
               (i := (sms_mem_info g i)\<lparr>mem_current := mem, mem_used := used, mem_total := total\<rparr>)\<rparr>
     in cpms_get_loop h todo str g)"

fun cpms_set_loop :: "nat list \<Rightarrow> cursor \<Rightarrow> gsm_t \<Rightarrow> cursor \<times> gsm_t" where
  "cpms_set_loop [] str g = (str, g)"
| "cpms_set_loop (i # todo) str g =
    (let (used, str) = gsmi_parse_number str;
         (total, str) = gsmi_parse_number str;
         g = g\<lparr>sms_mem_info := (sms_mem_info g)
               (i := (sms_mem_info g i)\<lparr>mem_used := used, mem_total := total\<rparr>)\<rparr>
     in cpms_set_loop todo str g)"

definition gsmi_parse_cpms :: "gsm_hdr \<Rightarrow> gsm_t \<Rightarrow> cursor \<Rightarrow> uint8_t \<Rightarrow> (uint8_t \<times> gsm_t) option" where
  "gsmi_parse_cpms h g str opt =
    (let str = skip_keyword str
     in if opt = 0 then
          (case cpms_opt_loop h [0, 1, 2] str g of
             None \<Rightarrow> None
           | Some (ok, str, g) \<Rightarrow> Some (if ok then 1 else 0, g))
        else if opt = 1 then Some (1, snd (cpms_get_loop h [0, 1, 2] str g))
        else if opt = 2 then Some (1, snd (cpms_set_loop [0, 1, 2] str g))
        else Some (1, g))"

subsection \<open>\<open>gsmi_parse_cpbr\<close> and \<open>gsmi_parse_cpbf\<close>\<close>

text \<open>The four statements that fill the entry \<open>e\<close>, the same in both functions.\<close>

definition pb_entry :: "gsm_hdr \<Rightarrow> cursor \<Rightarrow> gsm_pb_entry_t \<Rightarrow> gsm_pb_entry_t" where
  "pb_entry h str e =
    (let (v, str) = gsmi_parse_number str; e = e\<lparr>pb_pos := v\<rparr>;
         (str, b) = parse_string_into str (pb_name e) (sizeof_pb_name h) 1;
         e = e\<lparr>pb_name := b\<rparr>;
         (v, str) = gsmi_parse_number str; e = e\<lparr>pb_type := v\<rparr>;
         (str, b) = parse_string_into str (pb_number e) (sizeof_pb_number h) 1
     in e\<lparr>pb_number := b\<rparr>)"

text \<open>Both functions, after their guard, on the slot of their command: the entry at
  \<open>ei\<close>, then \<open>ei++\<close>, then \<open>if (er != NULL) { *er = ei; }\<close>.\<close>

definition pb_store :: "gsm_hdr \<Rightarrow> cursor \<Rightarrow> pb_slot \<Rightarrow> pb_slot" where
  "pb_store h str sl =
    (let e = pb_entry h str (pb_entries sl (pb_ei sl));
         sl = sl\<lparr>pb_entries := (pb_entries sl)(pb_ei sl := e)\<rparr>;
         sl = sl\<lparr>pb_ei := pb_ei sl + 1\<rparr>
     in (case pb_er sl of None \<Rightarrow> sl | Some v \<Rightarrow> sl\<lparr>pb_er := Some (pb_ei sl)\<rparr>))"

definition gsmi_parse_cpbr :: "gsm_hdr \<Rightarrow> gsm_t \<Rightarrow> cursor \<Rightarrow> uint8_t \<times> gsm_t" where
  "gsmi_parse_cpbr h g str =
    (case msg g of
       None \<Rightarrow> (0, g)
     | Some m \<Rightarrow>
         if cmd_def m \<noteq> GSM_CMD_CPBR \<or> pb_etr (msg_pb_list m) \<le> pb_ei (msg_pb_list m)
         then (0, g)
         else (1, g\<lparr>msg := Some (m\<lparr>msg_pb_list := pb_store h (skip_keyword str) (msg_pb_list m)\<rparr>)\<rparr>))"

definition gsmi_parse_cpbf :: "gsm_hdr \<Rightarrow> gsm_t \<Rightarrow> cursor \<Rightarrow> uint8_t \<times> gsm_t" where
  "gsmi_parse_cpbf h g str =
    (case msg g of
       None \<Rightarrow> (0, g)
     | Some m \<Rightarrow>
         if cmd_def m \<noteq> GSM_CMD_CPBF \<or> pb_etr (msg_pb_search m) \<le> pb_ei (msg_pb_search m)
         then (0, g)
         else (1, g\<lparr>msg := Some (m\<lparr>msg_pb_search := pb_store h (skip_keyword str) (msg_pb_search m)\<rparr>)\<rparr>))"

section \<open>Reference notions and example values\<close>

text \<open>The value of a run of decimal digits, as an unbounded natural number, and the
  decimal digits of a natural number.\<close>

definition dec_step :: "nat \<Rightarrow> char \<Rightarrow> nat" where
  "dec_step v c = 10 * v + (of_char c - 48)"

definition dec_value :: "string \<Rightarrow> nat" where
  "dec_value ds = foldl dec_step 0 ds"

fun digits_of :: "nat \<Rightarrow> string" where
  "digits_of n =
    (if n < 10 then [char_of (48 + n)] else digits_of (n div 10) @ [char_of (48 + n mod 10)])"

declare digits_of.simps [simp del]

text \<open>\<open>gsmi_parse_string(&s, NULL, 0, 1)\<close>: the cursor after a field that is skipped.\<close>

definition skip_string :: "cursor \<Rightarrow> cursor" where
  "skip_string s = (case gsmi_parse_string s None 0 1 of (r, p, d) \<Rightarrow> p)"

text \<open>A device header, a buffer of zeros, an active command with capacity \<open>cap\<close> and
  write cursor \<open>cur\<close> in each of its slots, and a device state, for concrete runs.\<close>

definition hdr_example :: gsm_hdr where
  "hdr_example =
    \<lparr>GSM_NETWORK_REG_STATUS_CONNECTED = 1,
     GSM_NETWORK_REG_STATUS_CONNECTED_ROAMING = 5,
     GSM_OPERATOR_FORMAT_LONG_NAME = 0,
     GSM_OPERATOR_FORMAT_SHORT_NAME = 1,
     GSM_OPERATOR_FORMAT_NUMBER = 2,
     GSM_OPERATOR_FORMAT_INVALID = 3,
     GSM_MEM_UNKNOWN = 31,
     gsm_dev_mem_map = [(''SM'', 0), (''ME'', 1), (''MT'', 2)],
     sizeof_curr_long_name = 20,
     sizeof_curr_short_name = 20,
     sizeof_op_long_name = 20,
     sizeof_op_short_name = 20,
     sizeof_pb_name = 20,
     sizeof_pb_number = 20,
     sizeof_sms_number = 26,
     sizeof_sms_name = 20\<rparr>"

definition buf_zero :: buf where
  "buf_zero = (\<lambda>i. NUL)"

definition msg_example :: "gsm_cmd_t \<Rightarrow> nat \<Rightarrow> nat \<Rightarrow> gsm_msg_t" where
  "msg_example cmd cap cur =
    \<lparr>cmd_def = cmd,
     msg_pb_list = \<lparr>pb_entries = (\<lambda>i. \<lparr>pb_pos = 0, pb_name = buf_zero, pb_type = 0, pb_number = buf_zero\<rparr>),
                    pb_etr = cap, pb_ei = cur, pb_er = Some cur\<rparr>,
     msg_pb_search = \<lparr>pb_entries = (\<lambda>i. \<lparr>pb_pos = 0, pb_name = buf_zero, pb_type = 0, pb_number = buf_zero\<rparr>),
                      pb_etr = cap, pb_ei = cur, pb_er = None\<rparr>,
     msg_sms_list = \<lparr>sl_mem = 0,
                     sl_entries = (\<lambda>i. \<lparr>sms_mem = 0, sms_pos = 0, sms_status = GSM_SMS_STATUS_ALL,
                        sms_number = buf_zero, sms_name = buf_zero,
                        sms_datetime = \<lparr>dt_date = 0, dt_month = 0, dt_year = 0, dt_hours = 0,
                                         dt_minutes = 0, dt_seconds = 0\<rparr>\<rparr>),
                     sl_etr = cap, sl_ei = cur\<rparr>,
     msg_cops_scan = \<lparr>ops = (\<lambda>i. \<lparr>op_stat = 0, op_long_name = buf_zero, op_short_name = buf_zero, op_num = 0\<rparr>),
                      opsl = cap, opsi = cur, opf = Some cur\<rparr>,
     msg_cops_get_curr = None\<rparr>"

definition gsm_example :: "gsm_msg_t option \<Rightarrow> gsm_t" where
  "gsm_example m =
    \<lparr>msg = m,
     network_status = 0,
     curr_operator = \<lparr>oc_mode = 0, oc_format = 0, oc_long_name = buf_zero, oc_short_name = buf_zero, oc_num = 0\<rparr>,
     sim_state = GSM_SIM_STATE_NOT_READY,
     sms_mem_info = (\<lambda>i. \<lparr>mem_available = 0, mem_current = 0, mem_used = 0, mem_total = 0\<rparr>),
     cb_cpin_state = GSM_SIM_STATE_NOT_READY,
     ext_calls = []\<rparr>"

text \<open>A scan: the reset call, then one call per character.\<close>

definition cops_scan_after_reset :: "gsm_hdr \<Rightarrow> cops_scan_u \<Rightarrow> gsm_t \<Rightarrow> char list \<Rightarrow> (cops_scan_u \<times> gsm_t) option" where
  "cops_scan_after_reset h u g chs =
    (case gsmi_parse_cops_scan h u g NUL 1 of
       None \<Rightarrow> None
     | Some (r, u', g') \<Rightarrow> cops_scan_feed h u' g' chs)"

text \<open>The guards of the list-entry parsers: no active command of the parser's kind,
  or the write cursor has reached the number of entries to read.\<close>

definition cpbr_declines :: "gsm_t \<Rightarrow> bool" where
  "cpbr_declines g =
    (case msg g of
       None \<Rightarrow> True
     | Some m \<Rightarrow> cmd_def m \<noteq> GSM_CMD_CPBR \<or> pb_etr (msg_pb_list m) \<le> pb_ei (msg_pb_list m))"

definition cpbf_declines :: "gsm_t \<Rightarrow> bool" where
  "cpbf_declines g =
    (case msg g of
       None \<Rightarrow> True
     | Some m \<Rightarrow> cmd_def m \<noteq> GSM_CMD_CPBF \<or> pb_etr (msg_pb_search m) \<le> pb_ei (msg_pb_search m))"

definition cmgl_declines :: "gsm_t \<Rightarrow> bool" where
  "cmgl_declines g =
    (case msg g of
       None \<Rightarrow> True
     | Some m \<Rightarrow> cmd_def m \<noteq> GSM_CMD_CMGL \<or> sl_etr (msg_sms_list m) \<le> sl_ei (msg_sms_list m))"

text \<open>The operator scan ignores its input: two commas in a row were seen, or the
  record array is full.\<close>

definition cops_scan_latched :: "cops_scan_u \<Rightarrow> gsm_t \<Rightarrow> bool" where
  "cops_scan_latched u g =
    (u_ccd u \<or>
     (case msg g of
        None \<Rightarrow> False
      | Some m \<Rightarrow> opsl (msg_cops_scan m) \<le> opsi (msg_cops_scan m)))"

text \<open>A memory table the bit field can hold: no literal is empty, and every identifier,
  the sentinel included, is the number of a bit of a 32-bit mask.\<close>

definition mem_map_ok :: "gsm_hdr \<Rightarrow> bool" where
  "mem_map_ok h =
    (list_all (\<lambda>e. 0 < strlen (fst e) \<and> snd e < 32) (gsm_dev_mem_map h)
     \<and> GSM_MEM_UNKNOWN h < 32)"

text \<open>What a step of the operator scan may do to byte \<open>j\<close> of a name array of \<open>sz\<close>
  bytes: nothing from index \<open>sz\<close> on, and at the last index \<open>sz - 1\<close>, the slot kept for
  the terminator, nothing but a NUL.\<close>

definition name_writes_ok :: "nat \<Rightarrow> buf \<Rightarrow> buf \<Rightarrow> nat \<Rightarrow> bool" where
  "name_writes_ok sz old new j =
    ((sz \<le> j \<longrightarrow> new j = old j) \<and> (sz - 1 \<le> j \<longrightarrow> new j = old j \<or> new j = NUL))"

text \<open>What an optional leading character of \<open>gsmi_parse_number\<close> may be.\<close>

definition opt_ch :: "char \<Rightarrow> string \<Rightarrow> bool" where
  "opt_ch c x = (x = [] \<or> x = [c])"

section \<open>The number scanner\<close>

lemma CHARTONUM_of_nat:
  assumes "GSM_CHARISNUM c"
  shows "GSM_CHARTONUM c = of_nat (of_char c - 48)"
proof -
  have a: "48 \<le> (of_char c :: nat)"
    using assms by (simp add: GSM_CHARISNUM_def)
  have "(of_char c :: int32_t) = of_nat (of_char c)"
    by (simp only: of_nat_of_char)
  also have "\<dots> - 48 = of_nat (of_char c - 48)"
    using a by (simp only: of_nat_diff of_nat_numeral)
  finally show ?thesis
    by (simp add: GSM_CHARTONUM_def)
qed

lemma number_loop_digits:
  "\<forall>x\<in>set ds. GSM_CHARISNUM x \<Longrightarrow> \<not> GSM_CHARISNUM (peek rest) \<Longrightarrow>
   number_loop (ds @ rest) (of_nat n) = (rest, of_nat (foldl dec_step n ds))"
proof (induction ds arbitrary: n)
  case Nil
  then show ?case by (cases rest) simp_all
next
  case (Cons x xs)
  have dx: "GSM_CHARISNUM x" and dxs: "\<forall>x\<in>set xs. GSM_CHARISNUM x"
    using Cons.prems(1) by simp_all
  have "of_nat n * 10 + GSM_CHARTONUM x = (of_nat (dec_step n x) :: int32_t)"
    by (simp add: CHARTONUM_of_nat [OF dx] dec_step_def)
  then have "number_loop ((x # xs) @ rest) (of_nat n) = number_loop (xs @ rest) (of_nat (dec_step n x))"
    using dx by simp
  also have "\<dots> = (rest, of_nat (foldl dec_step (dec_step n x) xs))"
    by (rule Cons.IH [OF dxs Cons.prems(2)])
  finally show ?case by simp
qed

lemma digit_not_skip:
  "GSM_CHARISNUM x \<Longrightarrow> x \<notin> set (DQ # '',/:+-'')"
  by (auto simp: GSM_CHARISNUM_def)

lemma skip_opt: "x = [] \<or> x = [c] \<Longrightarrow> peek t \<noteq> c \<Longrightarrow> skip_ch c (x @ t) = t"
  by (auto simp: skip_ch_def)

lemma peek_opt: "x = [] \<or> x = [c] \<Longrightarrow> peek (x @ t) = c \<or> peek (x @ t) = peek t"
  by auto

lemma skip_quotes:
  assumes "a = [] \<or> a = [DQ]" "b = [] \<or> b = '',''" "c = [] \<or> c = [DQ]"
    "peek t \<noteq> DQ" "peek t \<noteq> CHR '',''"
  shows "skip_ch DQ (skip_ch (CHR '','') (skip_ch DQ (a @ b @ c @ t))) = t"
  using assms by (auto simp: skip_ch_def)

lemma parse_number_prefix:
  assumes "a = [] \<or> a = [DQ]" "b = [] \<or> b = '',''" "c = [] \<or> c = [DQ]"
    "d = [] \<or> d = ''/''" "e = [] \<or> e = '':''" "f = [] \<or> f = ''+''"
    "sign = [] \<or> sign = ''-''"
    "peek t \<notin> set (DQ # '',/:+-'')"
  shows "gsmi_parse_number (a @ b @ c @ d @ e @ f @ sign @ t) =
    (if sign = ''-'' then - snd (number_loop t 0) else snd (number_loop t 0),
     skip_ch (CHR '','') (fst (number_loop t 0)))"
proof -
  have t: "peek t \<noteq> DQ" "peek t \<noteq> CHR '',''" "peek t \<noteq> CHR ''/''" "peek t \<noteq> CHR '':''"
    "peek t \<noteq> CHR ''+''" "peek t \<noteq> CHR ''-''"
    using assms(8) by simp_all
  have s: "peek (sign @ t) \<noteq> DQ" "peek (sign @ t) \<noteq> CHR '',''" "peek (sign @ t) \<noteq> CHR ''/''"
    "peek (sign @ t) \<noteq> CHR '':''" "peek (sign @ t) \<noteq> CHR ''+''"
    using peek_opt [OF assms(7), of t] t by auto
  have f: "peek (f @ sign @ t) \<noteq> DQ" "peek (f @ sign @ t) \<noteq> CHR '',''"
    "peek (f @ sign @ t) \<noteq> CHR ''/''" "peek (f @ sign @ t) \<noteq> CHR '':''"
    using peek_opt [OF assms(6), of "sign @ t"] s by auto
  have e: "peek (e @ f @ sign @ t) \<noteq> DQ" "peek (e @ f @ sign @ t) \<noteq> CHR '',''"
    "peek (e @ f @ sign @ t) \<noteq> CHR ''/''"
    using peek_opt [OF assms(5), of "f @ sign @ t"] f by auto
  have d: "peek (d @ e @ f @ sign @ t) \<noteq> DQ" "peek (d @ e @ f @ sign @ t) \<noteq> CHR '',''"
    using peek_opt [OF assms(4), of "e @ f @ sign @ t"] e by auto
  have 1: "skip_ch DQ (skip_ch (CHR '','') (skip_ch DQ (a @ b @ c @ d @ e @ f @ sign @ t)))
      = d @ e @ f @ sign @ t"
    by (rule skip_quotes [OF assms(1-3) d])
  have 2: "skip_ch (CHR ''/'') (d @ e @ f @ sign @ t) = e @ f @ sign @ t"
    by (rule skip_opt [OF assms(4) e(3)])
  have 3: "skip_ch (CHR '':'') (e @ f @ sign @ t) = f @ sign @ t"
    by (rule skip_opt [OF assms(5) f(4)])
  have 4: "skip_ch (CHR ''+'') (f @ sign @ t) = sign @ t"
    by (rule skip_opt [OF assms(6) s(5)])
  have 5: "(peek (sign @ t) = CHR ''-'') = (sign = ''-'')"
    "(if sign = ''-'' then tl (sign @ t) else sign @ t) = t"
    using assms(7) t(6) by auto
  show ?thesis
    unfolding gsmi_parse_number_def Let_def 1 2 3 4 5
    by (simp add: case_prod_beta)
qed

lemma sint_of_nat_small: "n < 2 ^ 31 \<Longrightarrow> sint (of_nat n :: int32_t) = int n"
  by (simp add: signed_take_bit_int_eq_self unsigned_of_nat take_bit_nat_eq_self sint_uint)

lemma sint_neg_of_nat_small: "n < 2 ^ 31 \<Longrightarrow> sint (- (of_nat n :: int32_t)) = - int n"
  by (simp add: sint_word_minus sint_of_nat_small signed_take_bit_int_eq_self)

text \<open>
  Claim C7, as amended. The input is the optional leading characters in the order the
  scanner tries them (quote, comma, quote, slash, colon, plus), an optional minus sign,
  a run \<open>ds\<close> of decimal digits and a remainder that does not go on with a digit (nor,
  when the run is empty, with a character the scanner would still skip). When the value
  of the run is at most \<open>2^31 - 1\<close>, \<open>gsmi_parse_number\<close> returns that value, negated
  after a minus sign and 0 for the empty run, and leaves the cursor at the remainder,
  past one comma when the remainder starts with one.
\<close>

theorem gsmi_parse_number_decimal:
  assumes "opt_ch DQ a" "opt_ch (CHR '','') b" "opt_ch DQ c"
    "opt_ch (CHR ''/'') d" "opt_ch (CHR '':'') e" "opt_ch (CHR ''+'') f"
    "opt_ch (CHR ''-'') sign"
    "\<forall>x\<in>set ds. GSM_CHARISNUM x"
    "\<not> GSM_CHARISNUM (peek rest)"
    "ds = [] \<longrightarrow> peek rest \<notin> set (DQ # '',/:+-'')"
    "dec_value ds < 2 ^ 31"
  shows "sint (fst (gsmi_parse_number (a @ b @ c @ d @ e @ f @ sign @ ds @ rest)))
           = (if sign = ''-'' then - int (dec_value ds) else int (dec_value ds))
       \<and> snd (gsmi_parse_number (a @ b @ c @ d @ e @ f @ sign @ ds @ rest))
           = skip_ch (CHR '','') rest"
proof -
  note o = assms(1-7) [unfolded opt_ch_def]
  have pk: "peek (ds @ rest) \<notin> set (DQ # '',/:+-'')"
  proof (cases ds)
    case Nil
    with assms(10) show ?thesis by simp
  next
    case (Cons x xs)
    with assms(8) have "GSM_CHARISNUM x" by simp
    from digit_not_skip [OF this] Cons show ?thesis by simp
  qed
  have nl: "number_loop (ds @ rest) 0 = (rest, of_nat (dec_value ds))"
    using number_loop_digits [OF assms(8,9), of 0] by (simp add: dec_value_def)
  show ?thesis
    using parse_number_prefix [OF o pk] assms(11)
    by (simp add: nl sint_of_nat_small sint_neg_of_nat_small)
qed

text \<open>The theorem at \<open>-123,rest\<close> and at the plain digit string \<open>26201\<close>.\<close>

theorem gsmi_parse_number_decimal_witness:
  "sint (fst (gsmi_parse_number ''-123,rest'')) = - 123
   \<and> snd (gsmi_parse_number ''-123,rest'') = ''rest''
   \<and> sint (fst (gsmi_parse_number ''26201'')) = 26201
   \<and> snd (gsmi_parse_number ''26201'') = []"
  using gsmi_parse_number_decimal [of "[]" "[]" "[]" "[]" "[]" "[]" "''-''" "''123''" "'',rest''"]
    gsmi_parse_number_decimal [of "[]" "[]" "[]" "[]" "[]" "[]" "[]" "''26201''" "[]"]
  by (simp add: opt_ch_def GSM_CHARISNUM_def dec_value_def dec_step_def skip_ch_def)

text \<open>The claim as written, for every run of digits, fails where the value does not fit
  the \<^verbatim>\<open>int32_t\<close> result: the digits of \<open>2^31\<close> do not come back as \<open>2^31\<close>.\<close>

theorem gsmi_parse_number_decimal_counterexample:
  "sint (fst (gsmi_parse_number ''2147483648'')) \<noteq> int (dec_value ''2147483648'')"
  by (simp add: gsmi_parse_number_def skip_ch_def GSM_CHARISNUM_def GSM_CHARTONUM_def
      dec_value_def dec_step_def)

section \<open>The string scanner\<close>

text \<open>
  Claim C8, as amended. On the quoted field \<open>"abc"\<close> followed by \<open>,next\<close>:
  with capacity 10 the destination receives \<open>abc\<close> and its NUL; with capacity 2 and
  trimming it receives \<open>a\<close> and its NUL and the cursor still passes the whole quoted
  field; in both cases the cursor is left at the comma before \<open>next\<close>, which the next
  scanner skips. With capacity 2 and no trimming the copy stops at \<open>b\<close>, where the
  cursor stays. The return value is 1 for every call.
\<close>

theorem gsmi_parse_string_abc:
  "parse_string_into (DQ # ''abc'' @ DQ # '',next'') b 10 1
     = ('',next'', b(0 := CHR ''a'', 1 := CHR ''b'', 2 := CHR ''c'', 3 := NUL))
   \<and> buf_cstr 10 (snd (parse_string_into (DQ # ''abc'' @ DQ # '',next'') b 10 1)) = ''abc''
   \<and> parse_string_into (DQ # ''abc'' @ DQ # '',next'') b 2 1
     = ('',next'', b(0 := CHR ''a'', 1 := NUL))
   \<and> buf_cstr 2 (snd (parse_string_into (DQ # ''abc'' @ DQ # '',next'') b 2 1)) = ''a''
   \<and> parse_string_into (DQ # ''abc'' @ DQ # '',next'') b 2 0
     = (''bc'' @ DQ # '',next'', b(0 := CHR ''a'', 1 := NUL))
   \<and> fst (gsmi_parse_string src dst n trim) = 1"
  by (simp add: parse_string_into_def gsmi_parse_string_def skip_ch_def Let_def case_prod_beta
      buf_cstr_def numeral_2_eq_2 numeral_3_eq_3 upt_rec)

text \<open>The claim as written has the cursor at \<open>next\<close>; it is at \<open>,next\<close>.\<close>

theorem gsmi_parse_string_abc_counterexample:
  "fst (parse_string_into (DQ # ''abc'' @ DQ # '',next'') buf_zero 10 1) \<noteq> ''next''"
  by (simp add: parse_string_into_def gsmi_parse_string_def skip_ch_def Let_def case_prod_beta)

text \<open>
  Claim C9 at a destination of declared length 0: the loop stores nothing, and the
  terminating NUL is stored all the same, at index 0 of a buffer that has no byte.
\<close>

theorem gsmi_parse_string_zero_capacity:
  "gsmi_parse_string ''x'' (Some (\<lambda>i. CHR ''Z'')) 0 1
     = (1, [], Some ((\<lambda>i. CHR ''Z'')(0 := NUL)))"
  by (simp add: gsmi_parse_string_def skip_ch_def Let_def case_prod_beta)

text \<open>With a declared length of at least 1 the destination is written below that length
  only: what the loop stores stays below \<open>dst_len - 1\<close>, and the NUL follows it.\<close>

lemma string_loop_writes:
  "\<exists>b'. fst (snd (string_loop p (Some b) i n trim)) = Some b'
     \<and> i \<le> snd (snd (string_loop p (Some b) i n trim))
     \<and> (i \<le> n \<longrightarrow> snd (snd (string_loop p (Some b) i n trim)) \<le> n)
     \<and> (\<forall>j. j < i \<or> snd (snd (string_loop p (Some b) i n trim)) \<le> j \<longrightarrow> b' j = b j)"
proof (induction p arbitrary: b i)
  case Nil
  show ?case by simp
next
  case (Cons c p)
  consider (stop) "c = NUL \<or> (c = DQ \<and> (peek p = CHR '','' \<or> peek p = CR \<or> peek p = LF))
        \<or> (\<not> i < n \<and> trim = 0)"
    | (store) "c \<noteq> NUL" "\<not> (c = DQ \<and> (peek p = CHR '','' \<or> peek p = CR \<or> peek p = LF))" "i < n"
    | (drop) "c \<noteq> NUL" "\<not> (c = DQ \<and> (peek p = CHR '','' \<or> peek p = CR \<or> peek p = LF))"
        "\<not> i < n" "trim \<noteq> 0"
    by blast
  then show ?case
  proof cases
    case stop
    then show ?thesis by auto
  next
    case store
    then have e: "string_loop (c # p) (Some b) i n trim = string_loop p (Some (b(i := c))) (Suc i) n trim"
      by auto
    let ?r = "string_loop p (Some (b(i := c))) (Suc i) n trim"
    from Cons.IH [where b = "b(i := c)" and i = "Suc i"]
    obtain b' where 1: "fst (snd ?r) = Some b'" and 2: "Suc i \<le> snd (snd ?r)"
      and 3: "Suc i \<le> n \<longrightarrow> snd (snd ?r) \<le> n"
      and 4: "\<forall>j. j < Suc i \<or> snd (snd ?r) \<le> j \<longrightarrow> b' j = (b(i := c)) j"
      by blast
    have 5: "\<forall>j. j < i \<or> snd (snd ?r) \<le> j \<longrightarrow> b' j = b j"
    proof (intro allI impI)
      fix j
      assume "j < i \<or> snd (snd ?r) \<le> j"
      with 2 have ne: "j \<noteq> i" and "j < Suc i \<or> snd (snd ?r) \<le> j" by auto
      with 4 have "b' j = (b(i := c)) j" by blast
      with ne show "b' j = b j" by simp
    qed
    have 6: "i \<le> snd (snd ?r)" "snd (snd ?r) \<le> n"
      using 2 3 store(3) by auto
    from 1 5 6 show ?thesis unfolding e by blast
  next
    case drop
    then have e: "string_loop (c # p) (Some b) i n trim = string_loop p (Some b) i n trim"
      by auto
    from Cons.IH [where b = b and i = i]
    show ?thesis unfolding e .
  qed
qed

lemma gsmi_parse_string_capacity:
  assumes "0 < dst_len"
  shows "\<exists>b'. snd (snd (gsmi_parse_string src (Some b) dst_len trim)) = Some b'
     \<and> (\<forall>j. dst_len \<le> j \<longrightarrow> b' j = b j)"
proof -
  let ?r = "string_loop (skip_ch DQ (skip_ch (CHR '','') src)) (Some b) 0 (dst_len - 1) trim"
  from string_loop_writes [where p = "skip_ch DQ (skip_ch (CHR '','') src)" and b = b and i = 0
      and n = "dst_len - 1" and trim = trim]
  obtain b' where b': "fst (snd ?r) = Some b'" "snd (snd ?r) \<le> dst_len - 1"
    "\<forall>j. snd (snd ?r) \<le> j \<longrightarrow> b' j = b j"
    by auto
  have "snd (snd (gsmi_parse_string src (Some b) dst_len trim)) = Some (b'(snd (snd ?r) := NUL))"
    using assms b'(1) by (simp add: gsmi_parse_string_def Let_def case_prod_beta)
  moreover have "\<forall>j. dst_len \<le> j \<longrightarrow> (b'(snd (snd ?r) := NUL)) j = b j"
    using assms b'(2,3) by auto
  ultimately show ?thesis by blast
qed

section \<open>Registration and SIM state\<close>

text \<open>
  Claim C4, as amended. \<open>gsmi_parse_creg\<close> skips the keyword, skips one number when
  \<open>skip_first\<close> is set, stores the next number as the registration status, and calls
  \<open>gsm_operator_get\<close> exactly when that status is the connected or the roaming
  enumerator. It returns 1 and the same state whatever \<open>gsm_operator_get\<close> answers: a
  failure to enqueue raises no error.
\<close>

theorem gsmi_parse_creg_result:
  "gsmi_parse_creg h op_get g str skip_first =
    (let st = fst (gsmi_parse_number
                (if skip_first \<noteq> 0 then snd (gsmi_parse_number (skip_keyword str))
                 else skip_keyword str))
     in (1, g\<lparr>network_status := st,
              ext_calls := ext_calls g @
                (if st = GSM_NETWORK_REG_STATUS_CONNECTED h
                    \<or> st = GSM_NETWORK_REG_STATUS_CONNECTED_ROAMING h
                 then [Call_gsm_operator_get] else [])\<rparr>))"
  by (simp add: gsmi_parse_creg_def Let_def case_prod_beta)

text \<open>The claim as written has the failure reported in the return value. On a connected
  status the query is issued, and a failed and a successful enqueue give the same
  return value 1 and the same state.\<close>

theorem gsmi_parse_creg_counterexample:
  "gsmi_parse_creg hdr_example gsmERR (gsm_example None) ''+CREG: 1'' 0
     = gsmi_parse_creg hdr_example gsmOK (gsm_example None) ''+CREG: 1'' 0
   \<and> fst (gsmi_parse_creg hdr_example gsmERR (gsm_example None) ''+CREG: 1'' 0) = 1
   \<and> ext_calls (snd (gsmi_parse_creg hdr_example gsmERR (gsm_example None) ''+CREG: 1'' 0))
     = [Call_gsm_operator_get]"
  by (simp add: gsmi_parse_creg_def skip_keyword_def Let_def hdr_example_def gsm_example_def
      gsmi_parse_number_def skip_ch_def GSM_CHARISNUM_def GSM_CHARTONUM_def)

text \<open>
  Claim C6 at the line \<open>+CPIN: NOT INSERTED\<close> with its line end: \<open>strncmp\<close> is asked
  for 14 bytes of the 12-byte literal, so the literal's NUL is compared with the
  carriage return, nothing matches and the state is not-ready. The same phrase with
  nothing after it is recognised.
\<close>

theorem gsmi_parse_cpin_not_inserted:
  "sim_state (snd (gsmi_parse_cpin g (''+CPIN: NOT INSERTED'' @ [CR, LF]) send_evt))
     = GSM_SIM_STATE_NOT_READY
   \<and> sim_state (snd (gsmi_parse_cpin g ''+CPIN: NOT INSERTED'' send_evt))
     = GSM_SIM_STATE_NOT_INSERTED"
  by (simp add: gsmi_parse_cpin_def skip_keyword_def Let_def eval_nat_numeral)

text \<open>The other four phrases are compared over their own length, so each is recognised
  whatever follows it; and \<open>gsmi_get_sim_info\<close> is called exactly when the state that
  results is ready.\<close>

lemma gsmi_parse_cpin_phrases:
  "sim_state (snd (gsmi_parse_cpin g (''READY'' @ rest) send_evt)) = GSM_SIM_STATE_READY"
  "sim_state (snd (gsmi_parse_cpin g (''NOT READY'' @ rest) send_evt)) = GSM_SIM_STATE_NOT_READY"
  "sim_state (snd (gsmi_parse_cpin g (''SIM PIN'' @ rest) send_evt)) = GSM_SIM_STATE_PIN"
  "sim_state (snd (gsmi_parse_cpin g (''PIN PUK'' @ rest) send_evt)) = GSM_SIM_STATE_PUK"
  by (simp_all add: gsmi_parse_cpin_def skip_keyword_def Let_def eval_nat_numeral)

lemma gsmi_parse_cpin_calls:
  "ext_calls (snd (gsmi_parse_cpin g str send_evt)) =
     ext_calls g
     @ (if sim_state (snd (gsmi_parse_cpin g str send_evt)) = GSM_SIM_STATE_READY
        then [Call_gsmi_get_sim_info] else [])
     @ (if send_evt \<noteq> 0 then [Call_gsmi_send_cb GSM_CB_CPIN] else [])"
  by (simp add: gsmi_parse_cpin_def Let_def)

section \<open>List-entry parsers\<close>

lemma cpbr_accepts:
  assumes "\<not> cpbr_declines g"
  shows "\<exists>m m'. msg g = Some m \<and> fst (gsmi_parse_cpbr h g str) = 1
      \<and> msg (snd (gsmi_parse_cpbr h g str)) = Some m'
      \<and> pb_entries (msg_pb_list m') = (pb_entries (msg_pb_list m))(pb_ei (msg_pb_list m) :=
               pb_entry h (skip_keyword str) (pb_entries (msg_pb_list m) (pb_ei (msg_pb_list m))))
      \<and> pb_ei (msg_pb_list m') = pb_ei (msg_pb_list m) + 1
      \<and> pb_er (msg_pb_list m') = map_option (\<lambda>v. pb_ei (msg_pb_list m) + 1) (pb_er (msg_pb_list m))
          \<and> pb_etr (msg_pb_list m') = pb_etr (msg_pb_list m)"
proof -
  from assms obtain m where m: "msg g = Some m" "cmd_def m = GSM_CMD_CPBR"
    "pb_ei (msg_pb_list m) < pb_etr (msg_pb_list m)"
    by (auto simp: cpbr_declines_def split: option.splits)
  show ?thesis
    using m by (cases "pb_er (msg_pb_list m)") (simp_all add: gsmi_parse_cpbr_def pb_store_def Let_def)
qed

lemma cpbf_accepts:
  assumes "\<not> cpbf_declines g"
  shows "\<exists>m m'. msg g = Some m \<and> fst (gsmi_parse_cpbf h g str) = 1
      \<and> msg (snd (gsmi_parse_cpbf h g str)) = Some m'
      \<and> pb_entries (msg_pb_search m') = (pb_entries (msg_pb_search m))(pb_ei (msg_pb_search m) :=
               pb_entry h (skip_keyword str) (pb_entries (msg_pb_search m) (pb_ei (msg_pb_search m))))
      \<and> pb_ei (msg_pb_search m') = pb_ei (msg_pb_search m) + 1
      \<and> pb_er (msg_pb_search m') = map_option (\<lambda>v. pb_ei (msg_pb_search m) + 1) (pb_er (msg_pb_search m))
          \<and> pb_etr (msg_pb_search m') = pb_etr (msg_pb_search m)"
proof -
  from assms obtain m where m: "msg g = Some m" "cmd_def m = GSM_CMD_CPBF"
    "pb_ei (msg_pb_search m) < pb_etr (msg_pb_search m)"
    by (auto simp: cpbf_declines_def split: option.splits)
  show ?thesis
    using m by (cases "pb_er (msg_pb_search m)") (simp_all add: gsmi_parse_cpbf_def pb_store_def Let_def)
qed

lemma cmgl_accepts:
  assumes "\<not> cmgl_declines g"
  shows "\<exists>m m'. msg g = Some m \<and> fst (gsmi_parse_cmgl h g str) = 1
      \<and> msg (snd (gsmi_parse_cmgl h g str)) = Some m'
      \<and> sl_entries (msg_sms_list m') = (sl_entries (msg_sms_list m))(sl_ei (msg_sms_list m) :=
               cmgl_entry h (sl_mem (msg_sms_list m)) (skip_keyword str)
                 (sl_entries (msg_sms_list m) (sl_ei (msg_sms_list m))))
      \<and> sl_ei (msg_sms_list m') = sl_ei (msg_sms_list m)
      \<and> sl_etr (msg_sms_list m') = sl_etr (msg_sms_list m)"
proof -
  from assms obtain m where m: "msg g = Some m" "cmd_def m = GSM_CMD_CMGL"
    "sl_ei (msg_sms_list m) < sl_etr (msg_sms_list m)"
    by (auto simp: cmgl_declines_def split: option.splits)
  show ?thesis
    using m by (simp add: gsmi_parse_cmgl_def Let_def)
qed

lemma parsers_decline:
  "cpbr_declines g \<Longrightarrow> gsmi_parse_cpbr h g str = (0, g)"
  "cpbf_declines g \<Longrightarrow> gsmi_parse_cpbf h g str = (0, g)"
  "cmgl_declines g \<Longrightarrow> gsmi_parse_cmgl h g str = (0, g)"
  by (auto simp: cpbr_declines_def cpbf_declines_def cmgl_declines_def
      gsmi_parse_cpbr_def gsmi_parse_cpbf_def gsmi_parse_cmgl_def split: option.splits)

text \<open>
  Claim C1, as amended. Each of \<open>gsmi_parse_cpbr\<close>, \<open>gsmi_parse_cpbf\<close> and
  \<open>gsmi_parse_cmgl\<close>, when there is no active command of its kind or the write cursor
  has reached the number of entries to read, returns 0 and leaves the whole state, so
  the entries and the write cursor, as it was. Otherwise it returns 1 and stores the
  entry parsed from the line at the write cursor, every other entry staying as it was;
  \<open>gsmi_parse_cpbr\<close> and \<open>gsmi_parse_cpbf\<close> then advance the write cursor by one and
  publish it through \<open>er\<close> when that pointer is set, and \<open>gsmi_parse_cmgl\<close> leaves the
  write cursor where it is.
\<close>

theorem list_entry_parsers:
  "(cpbr_declines g \<longrightarrow> gsmi_parse_cpbr h g str = (0, g))
   \<and> (cpbf_declines g \<longrightarrow> gsmi_parse_cpbf h g str = (0, g))
   \<and> (cmgl_declines g \<longrightarrow> gsmi_parse_cmgl h g str = (0, g))
   \<and> (\<not> cpbr_declines g \<longrightarrow>
        (\<exists>m m'. msg g = Some m \<and> fst (gsmi_parse_cpbr h g str) = 1
          \<and> msg (snd (gsmi_parse_cpbr h g str)) = Some m'
          \<and> pb_entries (msg_pb_list m') = (pb_entries (msg_pb_list m))(pb_ei (msg_pb_list m) :=
               pb_entry h (skip_keyword str) (pb_entries (msg_pb_list m) (pb_ei (msg_pb_list m))))
          \<and> pb_ei (msg_pb_list m') = pb_ei (msg_pb_list m) + 1
          \<and> pb_er (msg_pb_list m') = map_option (\<lambda>v. pb_ei (msg_pb_list m) + 1) (pb_er (msg_pb_list m))
          \<and> pb_etr (msg_pb_list m') = pb_etr (msg_pb_list m)))
   \<and> (\<not> cpbf_declines g \<longrightarrow>
        (\<exists>m m'. msg g = Some m \<and> fst (gsmi_parse_cpbf h g str) = 1
          \<and> msg (snd (gsmi_parse_cpbf h g str)) = Some m'
          \<and> pb_entries (msg_pb_search m') = (pb_entries (msg_pb_search m))(pb_ei (msg_pb_search m) :=
               pb_entry h (skip_keyword str) (pb_entries (msg_pb_search m) (pb_ei (msg_pb_search m))))
          \<and> pb_ei (msg_pb_search m') = pb_ei (msg_pb_search m) + 1
          \<and> pb_er (msg_pb_search m') = map_option (\<lambda>v. pb_ei (msg_pb_search m) + 1) (pb_er (msg_pb_search m))
          \<and> pb_etr (msg_pb_search m') = pb_etr (msg_pb_search m)))
   \<and> (\<not> cmgl_declines g \<longrightarrow>
        (\<exists>m m'. msg g = Some m \<and> fst (gsmi_parse_cmgl h g str) = 1
          \<and> msg (snd (gsmi_parse_cmgl h g str)) = Some m'
          \<and> sl_entries (msg_sms_list m') = (sl_entries (msg_sms_list m))(sl_ei (msg_sms_list m) :=
               cmgl_entry h (sl_mem (msg_sms_list m)) (skip_keyword str)
                 (sl_entries (msg_sms_list m) (sl_ei (msg_sms_list m))))
          \<and> sl_ei (msg_sms_list m') = sl_ei (msg_sms_list m)
          \<and> sl_etr (msg_sms_list m') = sl_etr (msg_sms_list m)))"
  using parsers_decline [of g h str] cpbr_accepts [of g h str] cpbf_accepts [of g h str]
    cmgl_accepts [of g h str]
  by blast

text \<open>The theorem at three declining states (no command, a full slot, a command of
  another kind) and at three accepting ones.\<close>

theorem list_entry_parsers_witness:
  "gsmi_parse_cpbr hdr_example (gsm_example None) ''+CPBR: 1,Ann,129,123'' = (0, gsm_example None)
   \<and> gsmi_parse_cpbf hdr_example (gsm_example (Some (msg_example GSM_CMD_CPBF 1 1))) ''+CPBF: 1,Ann,129,123''
      = (0, gsm_example (Some (msg_example GSM_CMD_CPBF 1 1)))
   \<and> gsmi_parse_cmgl hdr_example (gsm_example (Some (msg_example GSM_CMD_CPBR 1 0))) ''+CMGL: 1,REC READ,123''
      = (0, gsm_example (Some (msg_example GSM_CMD_CPBR 1 0)))
   \<and> map_option (\<lambda>m. pb_ei (msg_pb_list m))
        (msg (snd (gsmi_parse_cpbr hdr_example (gsm_example (Some (msg_example GSM_CMD_CPBR 2 0)))
           ''+CPBR: 1,Ann,129,123''))) = Some 1
   \<and> map_option (\<lambda>m. pb_ei (msg_pb_search m))
        (msg (snd (gsmi_parse_cpbf hdr_example (gsm_example (Some (msg_example GSM_CMD_CPBF 2 1)))
           ''+CPBF: 1,Ann,129,123''))) = Some 2
   \<and> map_option (\<lambda>m. sl_ei (msg_sms_list m))
        (msg (snd (gsmi_parse_cmgl hdr_example (gsm_example (Some (msg_example GSM_CMD_CMGL 2 1)))
           ''+CMGL: 1,REC READ,123''))) = Some 1"
  using list_entry_parsers [of "gsm_example None" hdr_example "''+CPBR: 1,Ann,129,123''"]
    list_entry_parsers [of "gsm_example (Some (msg_example GSM_CMD_CPBF 1 1))" hdr_example "''+CPBF: 1,Ann,129,123''"]
    list_entry_parsers [of "gsm_example (Some (msg_example GSM_CMD_CPBR 1 0))" hdr_example "''+CMGL: 1,REC READ,123''"]
    list_entry_parsers [of "gsm_example (Some (msg_example GSM_CMD_CPBR 2 0))" hdr_example "''+CPBR: 1,Ann,129,123''"]
    list_entry_parsers [of "gsm_example (Some (msg_example GSM_CMD_CPBF 2 1))" hdr_example "''+CPBF: 1,Ann,129,123''"]
    list_entry_parsers [of "gsm_example (Some (msg_example GSM_CMD_CMGL 2 1))" hdr_example "''+CMGL: 1,REC READ,123''"]
  by (auto simp: cpbr_declines_def cpbf_declines_def cmgl_declines_def gsm_example_def msg_example_def)

text \<open>The claim as written has every accepting parser advance the write cursor:
  \<open>gsmi_parse_cmgl\<close> accepts this line and the cursor is still 0.\<close>

theorem list_entry_parsers_counterexample:
  "fst (gsmi_parse_cmgl hdr_example (gsm_example (Some (msg_example GSM_CMD_CMGL 1 0)))
          ''+CMGL: 1,REC READ,123,,18/01/01,12:00:00+04'') = 1
   \<and> map_option (\<lambda>m. sl_ei (msg_sms_list m))
        (msg (snd (gsmi_parse_cmgl hdr_example (gsm_example (Some (msg_example GSM_CMD_CMGL 1 0)))
          ''+CMGL: 1,REC READ,123,,18/01/01,12:00:00+04''))) = Some 0"
  by (simp add: gsmi_parse_cmgl_def gsm_example_def msg_example_def Let_def)

section \<open>The operator scan\<close>

text \<open>
  Claim C2, as amended. After the reset call, with an active command whose record
  count is 0 and whose capacity is at least 1, the characters \<open>(\<close> and \<open>)\<close> open and
  close one record: the record count becomes 1 and is published through \<open>opf\<close> when
  that pointer is set, the machine is back outside a record, and the flag of two commas
  in a row is not set.
\<close>

theorem cops_scan_brackets:
  assumes "msg g = Some m" "opsi (msg_cops_scan m) = 0" "1 \<le> opsl (msg_cops_scan m)"
  shows "cops_scan_after_reset h u g ''()'' =
    Some (cops_scan_u_reset\<lparr>u_ch_prev := CHR '')''\<rparr>,
          g\<lparr>msg := Some (m\<lparr>msg_cops_scan := (msg_cops_scan m)
                 \<lparr>opsi := 1, opf := map_option (\<lambda>v. 1) (opf (msg_cops_scan m))\<rparr>\<rparr>)\<rparr>)"
  using assms
  by (cases "opf (msg_cops_scan m)")
     (simp_all add: cops_scan_after_reset_def gsmi_parse_cops_scan_def cops_scan_u_reset_def
      scan_step_def Let_def)

text \<open>The theorem on a command with room for two records.\<close>

theorem cops_scan_brackets_witness:
  "\<exists>u g. cops_scan_after_reset hdr_example cops_scan_u_reset
        (gsm_example (Some (msg_example (GSM_CMD_OTHER 0) 2 0))) ''()'' = Some (u, g)
     \<and> \<not> u_ccd u \<and> \<not> u_bo u \<and> map_option (\<lambda>m. opsi (msg_cops_scan m)) (msg g) = Some 1
     \<and> map_option (\<lambda>m. opf (msg_cops_scan m)) (msg g) = Some (Some 1)"
  using cops_scan_brackets [of "gsm_example (Some (msg_example (GSM_CMD_OTHER 0) 2 0))"
      "msg_example (GSM_CMD_OTHER 0) 2 0" hdr_example cops_scan_u_reset]
  by (simp add: gsm_example_def msg_example_def cops_scan_u_reset_def)

text \<open>The claim as written has a record count of zero and the empty-list condition
  latched: with room for one record the count is 1 and the flag is clear.\<close>

theorem cops_scan_brackets_counterexample:
  "\<exists>u g. cops_scan_after_reset hdr_example cops_scan_u_reset
        (gsm_example (Some (msg_example (GSM_CMD_OTHER 0) 1 0))) ''()'' = Some (u, g)
     \<and> \<not> u_ccd u \<and> map_option (\<lambda>m. opsi (msg_cops_scan m)) (msg g) = Some 1"
  by (simp add: cops_scan_after_reset_def gsmi_parse_cops_scan_def cops_scan_u_reset_def
      gsm_example_def msg_example_def scan_step_def Let_def)

lemma scan_latched_step:
  assumes "cops_scan_latched u g"
  shows "\<exists>u'. gsmi_parse_cops_scan h u g ch 0 = Some (1, u', g) \<and> cops_scan_latched u' g"
  using assms
  by (auto simp: gsmi_parse_cops_scan_def cops_scan_latched_def Let_def split: option.splits)

lemma scan_latched_feed:
  "cops_scan_latched u g \<Longrightarrow>
   \<exists>u'. cops_scan_feed h u g chs = Some (u', g) \<and> cops_scan_latched u' g"
proof (induction chs arbitrary: u)
  case Nil
  then show ?case by simp
next
  case (Cons ch chs)
  from scan_latched_step [OF Cons.prems, of h ch]
  obtain u1 where s: "gsmi_parse_cops_scan h u g ch 0 = Some (1, u1, g)"
    and l: "cops_scan_latched u1 g" by blast
  from Cons.IH [OF l] show ?case by (simp add: s)
qed

text \<open>
  Claim C3. Once the flag of two commas in a row is set, or the record count has
  reached the capacity of the record array, a call without reset returns 1 and leaves
  the device state, so the record array, the record count and the published count, as
  it was, and the condition still holds afterwards; hence the same for every run of
  such calls. A call with reset puts the static state back to zeros, with the flag
  clear.
\<close>

theorem cops_scan_ignores_when_latched:
  assumes "cops_scan_latched u g"
  shows "(\<exists>u'. gsmi_parse_cops_scan h u g ch 0 = Some (1, u', g) \<and> cops_scan_latched u' g)
    \<and> (\<exists>u'. cops_scan_feed h u g chs = Some (u', g) \<and> cops_scan_latched u' g)
    \<and> (reset \<noteq> 0 \<longrightarrow> gsmi_parse_cops_scan h u g ch reset = Some (1, cops_scan_u_reset, g))
    \<and> \<not> u_ccd cops_scan_u_reset"
  using scan_latched_step [OF assms] scan_latched_feed [OF assms]
  by (simp add: gsmi_parse_cops_scan_def cops_scan_u_reset_def)

text \<open>The theorem on a full record array, fed \<open>(2,A),\<close>.\<close>

theorem cops_scan_ignores_when_latched_witness:
  "cops_scan_latched cops_scan_u_reset (gsm_example (Some (msg_example (GSM_CMD_OTHER 0) 1 1)))
   \<and> map_option snd (cops_scan_feed hdr_example cops_scan_u_reset
        (gsm_example (Some (msg_example (GSM_CMD_OTHER 0) 1 1))) ''(2,A),'')
      = Some (gsm_example (Some (msg_example (GSM_CMD_OTHER 0) 1 1)))"
proof -
  have l: "cops_scan_latched cops_scan_u_reset (gsm_example (Some (msg_example (GSM_CMD_OTHER 0) 1 1)))"
    by (simp add: cops_scan_latched_def cops_scan_u_reset_def gsm_example_def msg_example_def)
  from cops_scan_ignores_when_latched [OF l, of hdr_example "CHR ''(''" "''(2,A),''" 0]
  obtain u' where "cops_scan_feed hdr_example cops_scan_u_reset
        (gsm_example (Some (msg_example (GSM_CMD_OTHER 0) 1 1))) ''(2,A),''
      = Some (u', gsm_example (Some (msg_example (GSM_CMD_OTHER 0) 1 1)))"
    by blast
  with l show ?thesis by simp
qed

text \<open>The capacity of the name arrays in the scan: a step of the scan stores a character of a long or
  short name below the terminator slot only, whatever the state it starts from.\<close>

lemma unat_succ_le: "unat (tp + 1 :: uint8_t) \<le> unat tp + 1"
  by (simp add: unat_word_ariths)

lemma scan_put_bounds:
  "(sz \<le> j \<longrightarrow> fst (scan_put sz name tp ch) j = name j)
   \<and> (sz - 1 \<le> j \<longrightarrow> fst (scan_put sz name tp ch) j = name j \<or> fst (scan_put sz name tp ch) j = NUL)"
  using unat_succ_le [of tp] by (auto simp: scan_put_def)

lemma name_writes_ok_refl: "name_writes_ok sz b b j"
  by (simp add: name_writes_ok_def)

lemma scan_put_ok: "name_writes_ok sz name (fst (scan_put sz name tp ch)) j"
  using scan_put_bounds [of sz j name tp ch] by (simp add: name_writes_ok_def)

lemma scan_term_names:
  "name_writes_ok (sizeof_op_long_name h) (op_long_name e) (op_long_name (snd (scan_term h u e ch))) j
   \<and> name_writes_ok (sizeof_op_short_name h) (op_short_name e) (op_short_name (snd (scan_term h u e ch))) j"
  by (simp add: scan_term_def case_prod_beta name_writes_ok_refl scan_put_ok)

lemma scan_step_ops:
  "ops (snd (scan_step h u cs ch)) = ops cs
   \<or> ops (snd (scan_step h u cs ch)) = (ops cs)(opsi cs := snd (scan_term h u (ops cs (opsi cs)) ch))"
  by (simp add: scan_step_def Let_def case_prod_beta split: option.splits)

lemma scan_step_names:
  "name_writes_ok (sizeof_op_long_name h) (op_long_name (ops cs k))
      (op_long_name (ops (snd (scan_step h u cs ch)) k)) j
   \<and> name_writes_ok (sizeof_op_short_name h) (op_short_name (ops cs k))
      (op_short_name (ops (snd (scan_step h u cs ch)) k)) j"
  using scan_step_ops [of h u cs ch] scan_term_names [of h "ops cs (opsi cs)" u ch j]
  by (cases "k = opsi cs") (auto simp: name_writes_ok_refl)

lemma cops_scan_msg:
  assumes "gsmi_parse_cops_scan h u g ch reset = Some (r, u', g')" "msg g = Some m"
  shows "msg g' = Some m
    \<or> (\<exists>u0. msg g' = Some (m\<lparr>msg_cops_scan := snd (scan_step h u0 (msg_cops_scan m) ch)\<rparr>))"
  using assms
  by (auto simp: gsmi_parse_cops_scan_def Let_def case_prod_beta split: if_splits)

lemma cops_scan_names:
  assumes "gsmi_parse_cops_scan h u g ch reset = Some (r, u', g')" "msg g = Some m"
  shows "\<exists>m'. msg g' = Some m'
     \<and> name_writes_ok (sizeof_op_long_name h) (op_long_name (ops (msg_cops_scan m) k))
          (op_long_name (ops (msg_cops_scan m') k)) j
     \<and> name_writes_ok (sizeof_op_short_name h) (op_short_name (ops (msg_cops_scan m) k))
          (op_short_name (ops (msg_cops_scan m') k)) j"
  using cops_scan_msg [OF assms] scan_step_names [of h "msg_cops_scan m" k _ ch j]
  by (auto simp: name_writes_ok_refl)

section \<open>The current operator\<close>

lemma digit_char: "k < 10 \<Longrightarrow> (of_char (char_of (48 + k :: nat)) :: nat) = 48 + k"
  by simp

lemma digit_char_isnum: "k < 10 \<Longrightarrow> GSM_CHARISNUM (char_of (48 + k :: nat))"
  by (simp add: GSM_CHARISNUM_def)

lemma digits_of_digits: "\<forall>x\<in>set (digits_of n). GSM_CHARISNUM x"
proof (induction n rule: digits_of.induct)
  case (1 n)
  show ?case
  proof (cases "n < 10")
    case True
    then show ?thesis by (subst digits_of.simps) (simp add: digit_char_isnum)
  next
    case False
    have "n mod 10 < 10" by simp
    with False 1 show ?thesis by (subst digits_of.simps) (simp add: digit_char_isnum del: of_char_of)
  qed
qed

lemma digits_of_nonempty: "digits_of n \<noteq> []"
  by (subst digits_of.simps) simp

lemma digits_of_value: "foldl dec_step 0 (digits_of n) = n"
proof (induction n rule: digits_of.induct)
  case (1 n)
  show ?case
  proof (cases "n < 10")
    case True
    then show ?thesis by (subst digits_of.simps) (simp add: dec_step_def)
  next
    case False
    have m: "n mod 10 < 10" by simp
    have "dec_step (n div 10) (char_of (48 + n mod 10)) = n"
      unfolding dec_step_def digit_char [OF m] by simp
    with False 1 show ?thesis by (subst digits_of.simps) simp
  qed
qed

lemma parse_number_digits:
  assumes "opt_ch DQ q" "\<not> GSM_CHARISNUM (peek rest)"
  shows "gsmi_parse_number (q @ digits_of n @ rest) = (of_nat n, skip_ch (CHR '','') rest)"
proof -
  obtain x xs where d: "digits_of n = x # xs"
    using digits_of_nonempty [of n] by (cases "digits_of n") auto
  have "GSM_CHARISNUM x" using digits_of_digits [of n] d by simp
  from digit_not_skip [OF this] have pk: "peek (digits_of n @ rest) \<notin> set (DQ # '',/:+-'')"
    by (simp add: d)
  have nl: "number_loop (digits_of n @ rest) 0 = (rest, of_nat n)"
    using number_loop_digits [OF digits_of_digits assms(2), of n 0] by (simp add: digits_of_value)
  from parse_number_prefix [of q "[]" "[]" "[]" "[]" "[]" "[]", OF _ _ _ _ _ _ _ pk] assms(1)
  show ?thesis by (simp add: nl opt_ch_def)
qed

lemma peek_digits: "GSM_CHARISNUM (peek (digits_of n @ rest))"
  using digits_of_digits [of n] digits_of_nonempty [of n] by (cases "digits_of n") auto

lemma peek_digits_not:
  "peek (digits_of n @ rest) \<noteq> CR" "peek (digits_of n @ rest) \<noteq> CHR ''+''"
  using peek_digits [of n rest] by (auto simp: GSM_CHARISNUM_def)

text \<open>
  Claim C5. A current-operator line is built from a mode, the decimal digits of the
  numeric-format enumerator and the decimal digits of an operator code below \<open>2^32\<close>
  (the payload is a \<^verbatim>\<open>uint32_t\<close>), with or without the keyword in front and a quote
  before the code, and any remainder that does not go on with a digit. After
  \<open>gsmi_parse_cops\<close> the current operator of the device state has the numeric format
  tag and exactly that code. The enumerator of the numeric format differs from those
  of the two name formats, as the case labels of one \<open>switch\<close> do.
\<close>

theorem gsmi_parse_cops_numeric_roundtrip:
  assumes fmt: "GSM_OPERATOR_FORMAT_NUMBER h = of_nat f"
    and distinct: "GSM_OPERATOR_FORMAT_NUMBER h \<noteq> GSM_OPERATOR_FORMAT_LONG_NAME h"
      "GSM_OPERATOR_FORMAT_NUMBER h \<noteq> GSM_OPERATOR_FORMAT_SHORT_NAME h"
    and kw: "kw = [] \<or> kw = ''+COPS: ''"
    and q: "opt_ch DQ q"
    and rest: "\<not> GSM_CHARISNUM (peek rest)"
    and code: "code < 2 ^ 32"
  shows "oc_format (curr_operator (snd (gsmi_parse_cops h g
            (kw @ digits_of mode @ '','' @ digits_of f @ '','' @ q @ digits_of code @ rest))))
          = GSM_OPERATOR_FORMAT_NUMBER h
     \<and> unat (oc_num (curr_operator (snd (gsmi_parse_cops h g
            (kw @ digits_of mode @ '','' @ digits_of f @ '','' @ q @ digits_of code @ rest)))))
          = code"
proof -
  let ?p = "q @ digits_of code @ rest"
  let ?l2 = "digits_of f @ CHR '','' # ?p"
  let ?l1 = "digits_of mode @ CHR '','' # ?l2"
  have k: "skip_keyword (kw @ ?l1) = ?l1"
    using kw peek_digits_not(2) [of mode "CHR '','' # ?l2"] by (auto simp: skip_keyword_def)
  have nc: "\<not> GSM_CHARISNUM (CHR '','')" by (simp add: GSM_CHARISNUM_def)
  have 1: "gsmi_parse_number ?l1 = (of_nat mode, ?l2)"
    using parse_number_digits [of "[]" "CHR '','' # ?l2" mode] nc by (simp add: opt_ch_def skip_ch_def)
  have 2: "gsmi_parse_number ?l2 = (of_nat f, ?p)"
    using parse_number_digits [of "[]" "CHR '','' # ?p" f] nc by (simp add: opt_ch_def skip_ch_def)
  have 3: "fst (gsmi_parse_number ?p) = of_nat code"
    using parse_number_digits [OF q rest, of code] by simp
  have p2: "peek ?l2 \<noteq> CR" by (rule peek_digits_not(1))
  have p3: "peek ?p \<noteq> CR"
    using q peek_digits_not(1) [of code rest] by (auto simp: opt_ch_def)
  have u: "unat (of_nat code :: uint32_t) = code"
    using code by (simp add: unsigned_of_nat take_bit_nat_eq_self)
  show ?thesis
    using distinct p2 p3
    by (simp add: gsmi_parse_cops_def k 1 2 3 Let_def cops_payload_def fmt [symmetric] u
        split: option.splits)
qed

text \<open>The theorem on the line \<open>+COPS: 0,2,"26201"\<close> with its line end.\<close>

theorem gsmi_parse_cops_numeric_roundtrip_witness:
  "oc_format (curr_operator (snd (gsmi_parse_cops hdr_example (gsm_example None)
      (''+COPS: 0,2,'' @ DQ # ''26201'' @ [DQ, CR, LF])))) = 2
   \<and> unat (oc_num (curr_operator (snd (gsmi_parse_cops hdr_example (gsm_example None)
      (''+COPS: 0,2,'' @ DQ # ''26201'' @ [DQ, CR, LF]))))) = 26201"
  using gsmi_parse_cops_numeric_roundtrip [of hdr_example 2 "''+COPS: ''" "[DQ]" "[DQ, CR, LF]" 26201
      "gsm_example None" 0]
  by (simp add: hdr_example_def opt_ch_def GSM_CHARISNUM_def digits_of.simps char_of_def bit_0)

section \<open>Memory lists\<close>

lemma skip_ch_length: "length (skip_ch c s) \<le> length s"
  by (simp add: skip_ch_def)

lemma skip_ch_shorter: "peek s = c \<Longrightarrow> c \<noteq> NUL \<Longrightarrow> length (skip_ch c s) < length s"
  by (cases s) (simp_all add: skip_ch_def)

lemma skip_ch_NUL: "peek s = NUL \<Longrightarrow> c \<noteq> NUL \<Longrightarrow> skip_ch c s = s"
  by (simp add: skip_ch_def)

lemma string_loop_length:
  "length (fst (string_loop p None i n trim)) \<le> length p"
  by (induction p "None :: buf option" i n trim rule: string_loop.induct) (auto simp: le_SucI)

lemma string_loop_shorter:
  "peek p \<noteq> NUL \<Longrightarrow> length (fst (string_loop p None i n trim)) < length p"
  using string_loop_length [of "tl p" i n trim]
  by (cases p) (auto simp: less_Suc_eq_le)

lemma string_loop_NUL:
  "peek p = NUL \<Longrightarrow> fst (string_loop p None i n trim) = p"
  by (cases p) simp_all

lemma skip_string_eq:
  "skip_string s = fst (string_loop (skip_ch DQ (skip_ch (CHR '','') s)) None 0 0 1)"
  by (simp add: skip_string_def gsmi_parse_string_def Let_def case_prod_beta)

lemma skip_string_length: "length (skip_string s) \<le> length s"
  unfolding skip_string_eq
  by (meson string_loop_length skip_ch_length le_trans)

lemma skip_string_NUL: "peek s = NUL \<Longrightarrow> skip_string s = s"
  by (simp add: skip_string_eq skip_ch_NUL string_loop_NUL)

lemma skip_string_shorter:
  assumes "peek s \<noteq> NUL"
  shows "length (skip_string s) < length s"
proof (cases "peek s = CHR '',''")
  case True
  have "length (skip_string s) \<le> length (skip_ch (CHR '','') s)"
    unfolding skip_string_eq by (meson string_loop_length skip_ch_length le_trans)
  also have "\<dots> < length s" using True by (simp add: skip_ch_shorter)
  finally show ?thesis .
next
  case False
  then have s1: "skip_ch (CHR '','') s = s" by (simp add: skip_ch_def)
  show ?thesis
  proof (cases "peek s = DQ")
    case True
    have "length (skip_string s) \<le> length (skip_ch DQ s)"
      unfolding skip_string_eq s1 by (rule string_loop_length)
    also have "\<dots> < length s" using True by (simp add: skip_ch_shorter)
    finally show ?thesis .
  next
    case False
    then have "skip_ch DQ s = s" by (simp add: skip_ch_def)
    then show ?thesis
      unfolding skip_string_eq s1 using assms by (simp add: string_loop_shorter)
  qed
qed

lemma strlen_pos: "0 < strlen lit \<Longrightarrow> peek lit \<noteq> NUL"
  by (cases lit) (auto simp: strlen_def split: if_splits)

lemma strncmp0_pos:
  "strncmp0 s lit n \<Longrightarrow> 0 < n \<Longrightarrow> peek lit \<noteq> NUL \<Longrightarrow> peek s \<noteq> NUL"
  by (cases n) (auto split: if_splits)

lemma memory_scan_result:
  assumes "list_all (\<lambda>e. 0 < strlen (fst e) \<and> snd e < 32) tbl"
  shows "(memory_scan tbl s mem = (mem, s))
     \<or> (fst (memory_scan tbl s mem) < 32 \<and> peek s \<noteq> NUL
         \<and> length (snd (memory_scan tbl s mem)) < length s)"
  using assms
proof (induction tbl)
  case Nil
  then show ?case by simp
next
  case (Cons e tbl)
  obtain lit m where e: "e = (lit, m)" by (cases e)
  from Cons.prems e have ok: "0 < strlen lit" "m < 32"
    and rest: "list_all (\<lambda>e. 0 < strlen (fst e) \<and> snd e < 32) tbl" by simp_all
  show ?case
  proof (cases "strncmp0 s lit (strlen lit)")
    case True
    from strncmp0_pos [OF True ok(1) strlen_pos [OF ok(1)]] have ne: "peek s \<noteq> NUL" .
    then have "s \<noteq> []" by auto
    with ok(1) have "length (drop (strlen lit) s) < length s" by simp
    with True ne ok(2) show ?thesis by (simp add: e Let_def)
  next
    case False
    with Cons.IH [OF rest] show ?thesis by (simp add: e Let_def)
  qed
qed

lemma parse_memory_eq:
  "gsmi_parse_memory h src =
    (let s = skip_ch DQ (skip_ch (CHR '','') src);
         r = memory_scan (gsm_dev_mem_map h) s (GSM_MEM_UNKNOWN h)
     in (fst r, skip_ch DQ (if fst r = GSM_MEM_UNKNOWN h then skip_string (snd r) else snd r)))"
  by (simp add: gsmi_parse_memory_def skip_string_def Let_def case_prod_beta)

lemma parse_memory_id:
  assumes "mem_map_ok h"
  shows "fst (gsmi_parse_memory h src) < 32"
  using assms memory_scan_result [of "gsm_dev_mem_map h" "skip_ch DQ (skip_ch (CHR '','') src)" "GSM_MEM_UNKNOWN h"]
  by (auto simp: parse_memory_eq Let_def mem_map_ok_def)

lemma parse_memory_length: 
  assumes "mem_map_ok h"
  shows "length (snd (gsmi_parse_memory h src)) \<le> length src"
proof -
  let ?s = "skip_ch DQ (skip_ch (CHR '','') src)"
  let ?r = "memory_scan (gsm_dev_mem_map h) ?s (GSM_MEM_UNKNOWN h)"
  have a: "length ?s \<le> length src" by (meson skip_ch_length le_trans)
  have b: "length (snd ?r) \<le> length ?s"
    using assms memory_scan_result [of "gsm_dev_mem_map h" ?s "GSM_MEM_UNKNOWN h"]
    by (auto simp: mem_map_ok_def)
  have c: "length (if fst ?r = GSM_MEM_UNKNOWN h then skip_string (snd ?r) else snd ?r) \<le> length (snd ?r)"
    by (simp add: skip_string_length)
  have "length (snd (gsmi_parse_memory h src))
      \<le> length (if fst ?r = GSM_MEM_UNKNOWN h then skip_string (snd ?r) else snd ?r)"
    by (simp add: parse_memory_eq Let_def skip_ch_length)
  with a b c show ?thesis by linarith
qed

lemma parse_memory_progress:
  assumes "mem_map_ok h" "peek src \<noteq> NUL"
  shows "length (snd (gsmi_parse_memory h src)) < length src"
proof -
  let ?s1 = "skip_ch (CHR '','') src"
  let ?s = "skip_ch DQ ?s1"
  let ?r = "memory_scan (gsm_dev_mem_map h) ?s (GSM_MEM_UNKNOWN h)"
  let ?t = "if fst ?r = GSM_MEM_UNKNOWN h then skip_string (snd ?r) else snd ?r"
  have tbl: "list_all (\<lambda>e. 0 < strlen (fst e) \<and> snd e < 32) (gsm_dev_mem_map h)"
    using assms(1) by (simp add: mem_map_ok_def)
  have a1: "length ?s1 \<le> length src" by (rule skip_ch_length)
  have a2: "length ?s \<le> length ?s1" by (rule skip_ch_length)
  have b: "length (snd ?r) \<le> length ?s"
    using memory_scan_result [OF tbl, of ?s "GSM_MEM_UNKNOWN h"] by auto
  have c: "length ?t \<le> length (snd ?r)" by (simp add: skip_string_length)
  have d: "length (snd (gsmi_parse_memory h src)) \<le> length ?t"
    by (simp add: parse_memory_eq Let_def skip_ch_length)
  consider (comma) "peek src = CHR '',''" | (quote) "peek src \<noteq> CHR '',''" "peek src = DQ"
    | (other) "peek src \<noteq> CHR '',''" "peek src \<noteq> DQ" by blast
  then have "length ?t < length src"
  proof cases
    case comma
    then have "length ?s1 < length src" by (simp add: skip_ch_shorter)
    with a2 b c show ?thesis by linarith
  next
    case quote
    then have "?s1 = src" by (simp add: skip_ch_def)
    moreover have "length (skip_ch DQ src) < length src" using quote(2) by (simp add: skip_ch_shorter)
    ultimately show ?thesis using b c by simp
  next
    case other
    then have s: "?s = src" by (simp add: skip_ch_def)
    from memory_scan_result [OF tbl, of src "GSM_MEM_UNKNOWN h"]
    show ?thesis
    proof
      assume "memory_scan (gsm_dev_mem_map h) src (GSM_MEM_UNKNOWN h) = (GSM_MEM_UNKNOWN h, src)"
      then show ?thesis using assms(2) by (simp add: s skip_string_shorter)
    next
      assume "fst (memory_scan (gsm_dev_mem_map h) src (GSM_MEM_UNKNOWN h)) < 32 \<and> peek src \<noteq> NUL
         \<and> length (snd (memory_scan (gsm_dev_mem_map h) src (GSM_MEM_UNKNOWN h))) < length src"
      then show ?thesis using c by (simp add: s)
    qed
  qed
  with d show ?thesis by linarith
qed

lemma bit_set_nonzero: "k < 32 \<Longrightarrow> (m :: uint32_t) OR push_bit k 1 \<noteq> 0"
proof
  assume k: "k < 32" and z: "m OR push_bit k 1 = 0"
  have "bit (m OR push_bit k (1 :: uint32_t)) k"
    using k by (simp add: bit_or_iff bit_push_bit_iff bit_exp_iff possible_bit_word)
  with z show False by simp
qed

lemma memories_loop_total:
  assumes "mem_map_ok h"
  shows "\<exists>p m'. memories_loop h str m = Some (p, m') \<and> m' \<noteq> 0"
proof (induction "length str" arbitrary: str m rule: less_induct)
  case less
  let ?r = "gsmi_parse_memory h str"
  let ?m = "m OR push_bit (fst ?r) 1"
  have nz: "?m \<noteq> 0" by (rule bit_set_nonzero [OF parse_memory_id [OF assms]])
  show ?case
  proof (cases "peek (snd ?r) \<noteq> NUL \<and> peek (snd ?r) \<noteq> CHR '')''")
    case False
    then have "memories_loop h str m = Some (snd ?r, ?m)"
      by (subst memories_loop.simps) (auto simp: Let_def)
    with nz show ?thesis by simp
  next
    case True
    have "peek str \<noteq> NUL"
    proof
      assume n: "peek str = NUL"
      have tbl: "list_all (\<lambda>e. 0 < strlen (fst e) \<and> snd e < 32) (gsm_dev_mem_map h)"
        using assms by (simp add: mem_map_ok_def)
      have s: "skip_ch DQ (skip_ch (CHR '','') str) = str" using n by (simp add: skip_ch_NUL)
      from memory_scan_result [OF tbl, of str "GSM_MEM_UNKNOWN h"] n
      have "memory_scan (gsm_dev_mem_map h) str (GSM_MEM_UNKNOWN h) = (GSM_MEM_UNKNOWN h, str)" by blast
      then have "snd ?r = str" using n by (simp add: parse_memory_eq Let_def s skip_string_NUL skip_ch_NUL)
      with True n show False by simp
    qed
    from parse_memory_progress [OF assms this] have "length (snd ?r) < length str" .
    from less [OF this, of ?m] obtain p m' where "memories_loop h (snd ?r) ?m = Some (p, m')" "m' \<noteq> 0"
      by blast
    moreover have "memories_loop h str m = memories_loop h (snd ?r) ?m"
      using True by (subst memories_loop.simps) (simp add: Let_def)
    ultimately show ?thesis by simp
  qed
qed

lemma memories_string_total:
  assumes "mem_map_ok h"
  shows "\<exists>p m. gsmi_parse_memories_string h src = Some (1, p, m) \<and> m \<noteq> 0"
proof -
  from memories_loop_total [OF assms, of "skip_ch (CHR ''('') (skip_ch (CHR '','') src)" 0]
  obtain p m where "memories_loop h (skip_ch (CHR ''('') (skip_ch (CHR '','') src)) 0 = Some (p, m)" "m \<noteq> 0"
    by blast
  then show ?thesis by (simp add: gsmi_parse_memories_string_def Let_def)
qed

lemma cpms_opt_loop_total:
  assumes "mem_map_ok h"
  shows "\<exists>p g'. cpms_opt_loop h todo str g = Some (True, p, g')"
proof (induction todo arbitrary: str g)
  case Nil
  then show ?case by simp
next
  case (Cons i todo)
  from memories_string_total [OF assms, of str]
  obtain p m where "gsmi_parse_memories_string h str = Some (1, p, m)" by blast
  with Cons.IH show ?case by (simp add: Let_def)
qed

lemma memories_string_empty:
  assumes "mem_map_ok h"
  shows "gsmi_parse_memories_string h [] = Some (1, [], push_bit (GSM_MEM_UNKNOWN h) 1)"
proof -
  have tbl: "list_all (\<lambda>e. 0 < strlen (fst e) \<and> snd e < 32) (gsm_dev_mem_map h)"
    using assms by (simp add: mem_map_ok_def)
  from memory_scan_result [OF tbl, of "[]" "GSM_MEM_UNKNOWN h"]
  have "memory_scan (gsm_dev_mem_map h) [] (GSM_MEM_UNKNOWN h) = (GSM_MEM_UNKNOWN h, [])"
    by simp
  then have r: "gsmi_parse_memory h [] = (GSM_MEM_UNKNOWN h, [])"
    by (simp add: parse_memory_eq Let_def skip_ch_def skip_string_NUL)
  have "memories_loop h [] 0 = Some ([], push_bit (GSM_MEM_UNKNOWN h) 1)"
    by (subst memories_loop.simps) (simp add: r Let_def)
  then show ?thesis by (simp add: gsmi_parse_memories_string_def Let_def skip_ch_def)
qed

text \<open>
  Claim C10. The memory table of the device has no empty literal, and its identifiers
  and the sentinel are bit numbers of the 32-bit mask. Then \<open>gsmi_parse_memories_string\<close>
  ends on every input, returns 1 and leaves a mask that is not zero: the loop body runs
  at least once, and on the empty input the mask is the bit of the sentinel. So the
  branch of \<open>gsmi_parse_cpms\<close> that returns 0 is never taken: \<open>gsmi_parse_cpms\<close> ends and
  returns 1 on every input and for every option.
\<close>

theorem memories_string_always_succeeds:
  assumes "mem_map_ok h"
  shows "(\<exists>p m. gsmi_parse_memories_string h src = Some (1, p, m) \<and> m \<noteq> 0)
    \<and> gsmi_parse_memories_string h [] = Some (1, [], push_bit (GSM_MEM_UNKNOWN h) 1)
    \<and> (\<exists>g'. gsmi_parse_cpms h g str opt = Some (1, g'))"
proof -
  from cpms_opt_loop_total [OF assms, of "[0, 1, 2]" "skip_keyword str" g]
  obtain p g' where "cpms_opt_loop h [0, 1, 2] (skip_keyword str) g = Some (True, p, g')" by blast
  then have "\<exists>g'. gsmi_parse_cpms h g str opt = Some (1, g')"
    by (simp add: gsmi_parse_cpms_def Let_def)
  with memories_string_total [OF assms, of src] memories_string_empty [OF assms]
  show ?thesis by blast
qed

text \<open>The theorem on the example device, for a list that names no known memory and
  for the capability line of three lists.\<close>

theorem memories_string_always_succeeds_witness:
  "mem_map_ok hdr_example
   \<and> (\<exists>p m. gsmi_parse_memories_string hdr_example ''(XX,YY)'' = Some (1, p, m) \<and> m \<noteq> 0)
   \<and> gsmi_parse_memories_string hdr_example [] = Some (1, [], push_bit 31 1)
   \<and> (\<exists>g'. gsmi_parse_cpms hdr_example (gsm_example None) ''+CPMS: (SM,ME),(SM),(ME)'' 0
          = Some (1, g'))"
proof -
  have ok: "mem_map_ok hdr_example"
    by (simp add: mem_map_ok_def hdr_example_def strlen_def)
  from memories_string_always_succeeds [OF ok, of "''(XX,YY)''" "gsm_example None"
      "''+CPMS: (SM,ME),(SM),(ME)''" 0]
  show ?thesis using ok by (simp add: hdr_example_def)
qed

end
